theory Spec2Isabelle
  imports Complex_Main
begin

chapter \<open>The streaming AI response pipeline of the editor\<close>

text \<open>
  A shallow embedding of the history truncator, the chat history, the bracket command
  lexer, the debounced XML stream callbacks and the event-stream transport of the AI
  assistant, followed by the properties proved about them.

  JavaScript numbers are modelled by exact arithmetic (\<open>rat\<close>, \<open>int\<close>, \<open>nat\<close>), with
  \<open>None\<close> for the \<open>NaN\<close> that the history truncation can compute; floating-point
  rounding is outside the model.  JavaScript strings are
  modelled by \<open>string\<close>, one \<open>char\<close> for each code unit, for code units below 256.
  What the code calls but the sources do not hold (the identifier generator, the tag
  parser, \<open>JSON.parse\<close>, \<open>Date.now\<close>, \<open>Math.random\<close>) is a parameter of the model.
\<close>

section \<open>History truncation (utils/historyTruncation.ts)\<close>

text \<open>The \<open>ChatMessage\<close> interface of \<open>historyTruncation.ts\<close>: a role and a content.\<close>

record TruncMessage =
  role :: string
  content :: string

definition CHARS_PER_TOKEN :: rat where
  "CHARS_PER_TOKEN = 4"

definition RESPONSE_RESERVE :: rat where
  "RESPONSE_RESERVE = 1000"

definition MODEL_TOKEN_LIMITS :: "string \<rightharpoonup> rat" where
  "MODEL_TOKEN_LIMITS = [''gpt-3.5-turbo'' \<mapsto> 4096, ''gpt-4'' \<mapsto> 8192]"

text \<open>
  \<open>MODEL_TOKEN_LIMITS\<close> is an object literal, so a lookup that finds no key of its own
  goes on to the properties that every object inherits from \<open>Object.prototype\<close>: these
  are their names.  Such a lookup gives a function, or an object for \<open>__proto__\<close>,
  which is truthy and is not a number.
\<close>

definition inheritedProperties :: "string list" where
  "inheritedProperties =
     [''constructor'', ''hasOwnProperty'', ''isPrototypeOf'', ''propertyIsEnumerable'',
      ''toLocaleString'', ''toString'', ''valueOf'', ''__proto__'', ''__defineGetter__'',
      ''__defineSetter__'', ''__lookupGetter__'', ''__lookupSetter__'']"

text \<open>
  A number that the arithmetic of the function computes is a rational, or \<open>None\<close> for
  \<open>NaN\<close>, which is what arithmetic gives on a value that is not a number.  A comparison
  with \<open>NaN\<close> is false.
\<close>

definition numberLess :: "rat option \<Rightarrow> rat option \<Rightarrow> bool" where
  "numberLess x y = (case (x, y) of (Some a, Some b) \<Rightarrow> a < b | _ \<Rightarrow> False)"

text \<open>
  \<open>MODEL_TOKEN_LIMITS[modelName] || 4096\<close> as a number: a zero entry and a name that
  is found nowhere give 4096, and an inherited property gives \<open>None\<close>, since it is
  truthy and no number.
\<close>

definition maxTokensOf :: "string \<Rightarrow> rat option" where
  "maxTokensOf modelName =
     (case MODEL_TOKEN_LIMITS modelName of
        Some n \<Rightarrow> Some (if n = 0 then 4096 else n)
      | None \<Rightarrow> if modelName \<in> set inheritedProperties then None else Some 4096)"

definition availableForHistory :: "string \<Rightarrow> rat \<Rightarrow> rat \<Rightarrow> rat option" where
  "availableForHistory modelName systemPromptLength codeLength =
     (let usedTokens = (systemPromptLength + codeLength) / CHARS_PER_TOKEN
      in case maxTokensOf modelName of
           None \<Rightarrow> None
         | Some maxTokens \<Rightarrow> Some (maxTokens - usedTokens - RESPONSE_RESERVE))"

definition messageTokens :: "TruncMessage \<Rightarrow> rat" where
  "messageTokens m = of_nat (length (content m)) / CHARS_PER_TOKEN"

text \<open>
  The loop \<open>for (let i = history.length - 1; i >= 0; i--)\<close>.  The third argument is
  \<open>i + 1\<close>, the number of indices still to visit; the result is \<open>startIndex\<close>, which
  stays \<open>0\<close> when the loop runs to its end and is \<open>i + 1\<close> at the \<open>break\<close>.
\<close>

fun truncateLoop :: "TruncMessage list \<Rightarrow> rat option \<Rightarrow> nat \<Rightarrow> rat \<Rightarrow> nat" where
  "truncateLoop history avail 0 historyTokens = 0"
| "truncateLoop history avail (Suc i) historyTokens =
     (if numberLess avail (Some (historyTokens + messageTokens (history ! i)))
         \<and> int i < int (length history) - 2
      then i + 1
      else truncateLoop history avail i (historyTokens + messageTokens (history ! i)))"

definition truncateHistoryForTokenLimit ::
  "TruncMessage list \<Rightarrow> string \<Rightarrow> rat \<Rightarrow> rat \<Rightarrow> TruncMessage list" where
  "truncateHistoryForTokenLimit history modelName systemPromptLength codeLength =
     (let avail = availableForHistory modelName systemPromptLength codeLength
      in if numberLess avail (Some 100)
         then (if length history > 0 then [history ! (length history - 1)] else [])
         else drop (truncateLoop history avail (length history) 0) history)"

text \<open>The estimated token cost of a list of messages, by the estimator of the loop.\<close>

definition estimateTokens :: "TruncMessage list \<Rightarrow> rat" where
  "estimateTokens ms = sum_list (map messageTokens ms)"

text \<open>
  Sample data: an old message of 16000 characters followed by three of 8000 characters,
  and a short message followed by two of 16000 characters.
\<close>

definition longHistory :: "TruncMessage list" where
  "longHistory =
     [\<lparr>role = ''user'', content = replicate 16000 (CHR ''a'')\<rparr>,
      \<lparr>role = ''assistant'', content = replicate 8000 (CHR ''b'')\<rparr>,
      \<lparr>role = ''user'', content = replicate 8000 (CHR ''c'')\<rparr>,
      \<lparr>role = ''assistant'', content = replicate 8000 (CHR ''d'')\<rparr>]"

definition heavyHistory :: "TruncMessage list" where
  "heavyHistory =
     [\<lparr>role = ''user'', content = ''hi''\<rparr>,
      \<lparr>role = ''assistant'', content = replicate 16000 (CHR ''x'')\<rparr>,
      \<lparr>role = ''user'', content = replicate 16000 (CHR ''y'')\<rparr>]"

section \<open>Chat history (ChatHistory.ts)\<close>

text \<open>Values thrown by the modelled code.\<close>

datatype js_exn = Error | TypeError | SyntaxError | Thrown string

datatype ChatMessageType = User | Assistant | System

text \<open>
  A stored \<open>ChatMessage\<close>; the fields \<open>type\<close> and \<open>content\<close> are \<open>msgType\<close> and
  \<open>msgContent\<close> here.  The metadata is a mapping from strings to values of any type.
\<close>

record 'v ChatMessage =
  snowflakeId :: string
  msgType :: ChatMessageType
  msgContent :: string
  metadata :: "string \<rightharpoonup> 'v"

text \<open>
  The argument of \<open>add\<close>, a \<open>PartialWithRequired<ChatMessage, 'content'>\<close>: every
  field but the content may be missing.
\<close>

record 'v PartialMessage =
  given_snowflakeId :: "string option"
  given_type :: "ChatMessageType option"
  given_content :: string
  given_metadata :: "(string \<rightharpoonup> 'v) option"

text \<open>
  The state of a \<open>ChatHistory\<close> that \<open>add\<close> reads and writes: the message list.
  Activities, the history's own metadata and the listeners are left out.
\<close>

record 'v ChatHistory =
  messages :: "'v ChatMessage list"

definition MAX_MESSAGES :: nat where
  "MAX_MESSAGES = 50"

definition TRUNCATE_TO :: nat where
  "TRUNCATE_TO = 30"

definition emptyHistory :: "'v ChatHistory" where
  "emptyHistory = \<lparr>messages = []\<rparr>"

text \<open>
  \<open>truncateIfNeeded\<close>, on the message list.  \<open>slice(-TRUNCATE_TO)\<close> is the last
  \<open>TRUNCATE_TO\<close> elements, or the whole list when it is shorter.
\<close>

definition truncateIfNeeded :: "'v ChatMessage list \<Rightarrow> 'v ChatMessage list" where
  "truncateIfNeeded msgs =
     (if length msgs \<le> MAX_MESSAGES then msgs
      else
        let firstMessage =
              (case msgs of
                 [] \<Rightarrow> []
               | m0 # _ \<Rightarrow> if msgType m0 = System then [m0] else []);
            recentMessages = drop (length msgs - TRUNCATE_TO) msgs
        in firstMessage @ recentMessages)"

text \<open>
  The message object as \<open>add\<close> leaves it before the push: the identifier is the
  generated one, a missing type is \<open>User\<close>, a missing metadata is the empty mapping.
\<close>

definition stored :: "'v PartialMessage \<Rightarrow> string \<Rightarrow> 'v ChatMessage" where
  "stored message newId =
     \<lparr>snowflakeId = newId,
      msgType = (case given_type message of None \<Rightarrow> User | Some t \<Rightarrow> t),
      msgContent = given_content message,
      metadata = (case given_metadata message of None \<Rightarrow> Map.empty | Some md \<Rightarrow> md)\<rparr>"

text \<open>
  \<open>add\<close>.  The message is \<open>None\<close> for \<open>null\<close> or \<open>undefined\<close>.  \<open>newId\<close> is the value
  that \<open>AiUtils.generateSnowflakeId()\<close> returns in this call; the generator is not part
  of the sources and is taken as a parameter.  The result is the thrown error or the
  returned identifier, with the history after the call.  Each call is given a message
  object of its own, as every call site of the sources does with an object literal.
\<close>

definition add ::
  "'v PartialMessage option \<Rightarrow> string \<Rightarrow> 'v ChatHistory
     \<Rightarrow> (js_exn + string) \<times> 'v ChatHistory" where
  "add message newId h =
     (case message of
        None \<Rightarrow> (Inl Error, h)
      | Some m \<Rightarrow>
          (Inr newId, h\<lparr>messages := truncateIfNeeded (messages h @ [stored m newId])\<rparr>))"

text \<open>A sequence of \<open>add\<close> calls, each with its message and its generated identifier.\<close>

fun addAll ::
  "('v PartialMessage option \<times> string) list \<Rightarrow> 'v ChatHistory \<Rightarrow> 'v ChatHistory" where
  "addAll [] h = h"
| "addAll ((message, newId) # calls) h = addAll calls (snd (add message newId h))"

text \<open>
  Calls that all come with a message: the arguments of these calls, and the messages
  that they push.
\<close>

definition callsOf ::
  "('v PartialMessage \<times> string) list \<Rightarrow> ('v PartialMessage option \<times> string) list" where
  "callsOf cs = map (\<lambda>(message, newId). (Some message, newId)) cs"

definition storedAll :: "('v PartialMessage \<times> string) list \<Rightarrow> 'v ChatMessage list" where
  "storedAll cs = map (\<lambda>(message, newId). stored message newId) cs"

text \<open>
  Sample data: a session of a system prompt and fifty user turns, each with an
  identifier of its own; three calls, one of them without a message; and a history of a
  system prompt and 49 user messages.
\<close>

definition userTurn :: "nat \<Rightarrow> string PartialMessage \<times> string" where
  "userTurn k =
     (\<lparr>given_snowflakeId = None, given_type = None, given_content = ''turn'',
       given_metadata = None\<rparr>, replicate k (CHR ''i''))"

definition sampleSession :: "(string PartialMessage \<times> string) list" where
  "sampleSession =
     (\<lparr>given_snowflakeId = None, given_type = Some System, given_content = ''prompt'',
       given_metadata = None\<rparr>, ''s'') # map userTurn [1..<51]"


definition sampleCalls :: "(string PartialMessage option \<times> string) list" where
  "sampleCalls =
     [(Some \<lparr>given_snowflakeId = None, given_type = Some System,
             given_content = ''prompt'', given_metadata = None\<rparr>, ''id1''),
      (None, ''id2''),
      (Some \<lparr>given_snowflakeId = Some ''mine'', given_type = None,
             given_content = ''hello'', given_metadata = None\<rparr>, ''id3'')]"

definition systemPrompt :: "string ChatMessage" where
  "systemPrompt =
     \<lparr>snowflakeId = ''id0'', msgType = System, msgContent = ''prompt'',
      metadata = Map.empty\<rparr>"

definition oldMessage :: "string ChatMessage" where
  "oldMessage =
     \<lparr>snowflakeId = ''idn'', msgType = User, msgContent = ''old'', metadata = Map.empty\<rparr>"

definition fullHistory :: "string ChatHistory" where
  "fullHistory = \<lparr>messages = systemPrompt # replicate 49 oldMessage\<rparr>"

definition newMessage :: "string PartialMessage" where
  "newMessage =
     \<lparr>given_snowflakeId = Some ''mine'', given_type = None, given_content = ''new'',
      given_metadata = None\<rparr>"

definition answerMessage :: "string PartialMessage" where
  "answerMessage =
     \<lparr>given_snowflakeId = None, given_type = Some Assistant, given_content = ''answer'',
      given_metadata = Some [''k'' \<mapsto> ''v'']\<rparr>"

section \<open>The bracket command lexer (commandLexer.ts)\<close>

text \<open>A \<open>ReActCommand\<close>; its field \<open>type\<close> is \<open>cmdType\<close> here.\<close>

record ReActCommand =
  cmdType :: string
  args :: "string list"

text \<open>
  The lexer keeps the accumulated buffer and the commands of the last tokenization.
  Its \<open>_position\<close> is reset by every \<open>tokenize\<close> and is not part of the state: the
  scanning functions below take the input from the current position on and return what
  is left of it, so that \<open>next\<close> is \<open>tl\<close> (which leaves the empty input empty, as a
  position past the end stays past the end).
\<close>

record Lexer =
  buffer :: string
  commands :: "ReActCommand list"

definition initialLexer :: Lexer where
  "initialLexer = \<lparr>buffer = [], commands = []\<rparr>"

text \<open>\<open>peek\<close>: the character at the position as a string, the empty string at the end.\<close>

definition peek :: "string \<Rightarrow> string" where
  "peek input = take 1 input"

text \<open>The regular expression \<open>/[A-Z]/\<close> on one character.\<close>

definition isUppercase :: "char \<Rightarrow> bool" where
  "isUppercase c = (65 \<le> (of_char c :: nat) \<and> (of_char c :: nat) \<le> 90)"

text \<open>
  \<open>String.prototype.trim\<close> removes white space and line terminators from both ends;
  among the code units below 256 these are 9 to 13, 32 and 160.
\<close>

definition isWhiteSpace :: "char \<Rightarrow> bool" where
  "isWhiteSpace c = ((of_char c :: nat) \<in> {9, 10, 11, 12, 13, 32, 160})"

definition trim :: "string \<Rightarrow> string" where
  "trim s = rev (dropWhile isWhiteSpace (rev (dropWhile isWhiteSpace s)))"

text \<open>
  The loop of \<open>readUntil\<close>, with the value read so far and the \<open>escaped\<close> flag.  A line
  feed (code 10) is always taken; an unescaped stop character ends the loop and is left
  in the input; an unescaped backslash (code 92) is dropped and escapes the next
  character.
\<close>

fun readUntilLoop :: "char list \<Rightarrow> string \<Rightarrow> bool \<Rightarrow> string \<Rightarrow> string \<times> string" where
  "readUntilLoop stopChars val escaped [] = (val, [])"
| "readUntilLoop stopChars val escaped (ch # rest) =
     (if ch = CHR 0x0A then readUntilLoop stopChars (val @ [ch]) escaped rest
      else if ch \<in> set stopChars \<and> \<not> escaped then (val, ch # rest)
      else if ch = CHR 0x5C \<and> \<not> escaped then readUntilLoop stopChars val True rest
      else readUntilLoop stopChars (val @ [ch]) False rest)"

definition readUntil :: "char list \<Rightarrow> string \<Rightarrow> string \<times> string" where
  "readUntil stopChars input =
     (case readUntilLoop stopChars [] False input of (val, rest) \<Rightarrow> (trim val, rest))"

lemma readUntilLoop_length: "length (snd (readUntilLoop s v e input)) \<le> length input"
  by (induction input arbitrary: v e) (auto intro: le_SucI)

lemma readUntil_length: "readUntil s input = (v, rest) \<Longrightarrow> length rest \<le> length input"
  using readUntilLoop_length[of s "[]" False input]
  by (auto simp: readUntil_def split: prod.splits)

text \<open>
  The loop over the argument list, \<open>while (this.peek(input) !== ']')\<close>, with the
  arguments read so far.  It ends at a closing bracket, which it leaves in the input, or
  at the end of the input.  A double quote (code 34) opens an argument that is read up to
  the next unescaped double quote, which is then skipped.
\<close>

function argsLoop :: "string list \<Rightarrow> string \<Rightarrow> string list \<times> string" where
  "argsLoop as input =
     (if peek input \<noteq> '']'' then
        (if input = [] then (as, input)
         else if peek input = [CHR 0x22] then
           (case readUntil [CHR 0x22] (tl input) of
              (arg, rest) \<Rightarrow> argsLoop (as @ [arg]) (tl rest))
         else argsLoop as (tl input))
      else (as, input))"
  by pat_completeness auto
termination
proof (relation "measure (\<lambda>(as, input). length input)", goal_cases)
  case 1
  show ?case by simp
next
  case (2 as input x y)
  then have "length y \<le> length (tl input)"
    using readUntil_length[of "[CHR 0x22]" "tl input" x y] by simp
  with 2 show ?case by (cases input) auto
next
  case (3 as input)
  then show ?case by (cases input) auto
qed

declare argsLoop.simps [simp del]

lemma argsLoop_length: "length (snd (argsLoop as input)) \<le> length input"
proof (induction as input rule: argsLoop.induct)
  case (1 as input)
  show ?case
  proof (cases "peek input \<noteq> '']'' \<and> input \<noteq> []")
    case False
    then show ?thesis by (subst argsLoop.simps) auto
  next
    case True
    show ?thesis
    proof (cases "peek input = [CHR 0x22]")
      case q: True
      obtain arg rest where r: "readUntil [CHR 0x22] (tl input) = (arg, rest)" by force
      have "length (snd (argsLoop (as @ [arg]) (tl rest))) \<le> length (tl rest)"
        using 1(1)[OF _ _ q r[symmetric]] True by simp
      also have "\<dots> \<le> length input" using readUntil_length[OF r] by simp
      finally show ?thesis using True q r by (subst argsLoop.simps) simp
    next
      case q: False
      have "length (snd (argsLoop as (tl input))) \<le> length (tl input)"
        using 1(2)[OF _ _ q] True by simp
      then show ?thesis using True q by (subst argsLoop.simps) (simp add: le_diff_conv)
    qed
  qed
qed

lemma argsLoop_stop:
  "snd (argsLoop as input) = [] \<or> peek (snd (argsLoop as input)) = '']''"
proof (induction as input rule: argsLoop.induct)
  case (1 as input)
  show ?case
  proof (cases "peek input \<noteq> '']'' \<and> input \<noteq> []")
    case False
    then show ?thesis by (subst (1 2) argsLoop.simps) auto
  next
    case True
    show ?thesis
    proof (cases "peek input = [CHR 0x22]")
      case q: True
      obtain arg rest where r: "readUntil [CHR 0x22] (tl input) = (arg, rest)" by force
      show ?thesis
        using 1(1)[OF _ _ q r[symmetric]] True q r by (subst (1 2) argsLoop.simps) simp
    next
      case q: False
      show ?thesis using 1(2)[OF _ _ q] True q by (subst (1 2) argsLoop.simps) simp
    qed
  qed
qed

text \<open>
  One pass of the body of the outer \<open>while\<close> loop of \<open>tokenize\<close>, from the commands
  pushed so far and the input left: skip to the first upper-case letter, read the
  command type up to an opening bracket (code 91), skip that bracket, read the
  arguments.  At a closing bracket a command is pushed when its type is not empty and
  starts with an upper-case letter.  Otherwise the type and the arguments are written
  into the last command of the list, when there is one.
\<close>

definition tokenizeStep ::
  "ReActCommand list \<Rightarrow> string \<Rightarrow> ReActCommand list \<times> string" where
  "tokenizeStep cmds input =
     (case readUntil [CHR 0x5B] (dropWhile (\<lambda>c. \<not> isUppercase c) input) of
        (val, in1) \<Rightarrow>
          let commandType = trim val;
              in2 = (if peek in1 = ''['' then tl in1 else in1)
          in (case argsLoop [] in2 of
                (as, in3) \<Rightarrow>
                  if peek in3 = '']'' then
                    (if commandType \<noteq> [] \<and> isUppercase (hd commandType)
                     then cmds @ [\<lparr>cmdType = commandType, args = as\<rparr>]
                     else cmds,
                     tl in3)
                  else
                    (if length cmds > 0
                     then butlast cmds @ [\<lparr>cmdType = commandType, args = as\<rparr>]
                     else cmds,
                     in3)))"

lemma tokenizeStep_length:
  assumes "input \<noteq> []"
  shows "length (snd (tokenizeStep cmds input)) < length input"
proof -
  obtain val in1 where
    r: "readUntil [CHR 0x5B] (dropWhile (\<lambda>c. \<not> isUppercase c) input) = (val, in1)"
    by force
  define in2 where "in2 = (if peek in1 = ''['' then tl in1 else in1)"
  obtain as in3 where a: "argsLoop [] in2 = (as, in3)" by force
  have l1: "length in1 \<le> length input"
    using readUntil_length[OF r] length_dropWhile_le[of "\<lambda>c. \<not> isUppercase c" input]
    by simp
  have l2: "length in2 \<le> length in1" by (simp add: in2_def)
  have l3: "length in3 \<le> length in2" using argsLoop_length[of "[]" in2] a by simp
  have st: "in3 = [] \<or> peek in3 = '']''" using argsLoop_stop[of "[]" in2] a by simp
  have s: "snd (tokenizeStep cmds input) = (if peek in3 = '']'' then tl in3 else in3)"
    using r a by (simp add: tokenizeStep_def Let_def in2_def)
  show ?thesis
  proof (cases "peek in3 = '']''")
    case True
    then have "in3 \<noteq> []" by (auto simp: peek_def)
    then have "length (tl in3) < length in3" by simp
    with l1 l2 l3 s True show ?thesis by simp
  next
    case False
    with st have "in3 = []" by simp
    with s assms show ?thesis by (simp add: peek_def)
  qed
qed

text \<open>The outer loop, \<open>while (this._position < input.length)\<close>.\<close>

function tokenizeLoop :: "ReActCommand list \<Rightarrow> string \<Rightarrow> ReActCommand list" where
  "tokenizeLoop cmds input =
     (if input = [] then cmds
      else case tokenizeStep cmds input of (cmds', input') \<Rightarrow> tokenizeLoop cmds' input')"
  by pat_completeness auto
termination
proof (relation "measure (\<lambda>(cmds, input). length input)", goal_cases)
  case 1
  show ?case by simp
next
  case (2 cmds input x y)
  then show ?case
    using tokenizeStep_length[of input cmds] by (simp add: case_prod_unfold)
qed

declare tokenizeLoop.simps [simp del]

definition tokenize :: "string \<Rightarrow> ReActCommand list" where
  "tokenize input = tokenizeLoop [] input"

text \<open>The loop state of \<open>tokenize\<close> after a number of passes of the outer loop.\<close>

fun loopState :: "nat \<Rightarrow> string \<Rightarrow> ReActCommand list \<times> string" where
  "loopState 0 input = ([], input)"
| "loopState (Suc n) input =
     (case loopState n input of
        (cmds, rest) \<Rightarrow> if rest = [] then (cmds, rest) else tokenizeStep cmds rest)"

definition hasCommandChanged :: "ReActCommand \<Rightarrow> ReActCommand \<Rightarrow> bool" where
  "hasCommandChanged oldCmd newCmd =
     (if cmdType oldCmd \<noteq> cmdType newCmd then True
      else if length (args oldCmd) \<noteq> length (args newCmd) then True
      else list_ex (\<lambda>i. args oldCmd ! i \<noteq> args newCmd ! i) [0..<length (args oldCmd)])"

text \<open>
  \<open>append\<close>: the reported commands and the lexer after the call.  The new commands come
  first, then the changed ones among the positions that both lists have.
\<close>

definition lexer_append :: "string \<Rightarrow> Lexer \<Rightarrow> ReActCommand list \<times> Lexer" where
  "lexer_append ch st =
     (let buffer' = buffer st @ ch;
          previousCommands = commands st;
          previousCount = length previousCommands;
          cmds = tokenize buffer';
          newCommands = (if length cmds > previousCount then drop previousCount cmds else []);
          checkLength = min previousCount (length cmds);
          changedCommands =
            map (\<lambda>i. cmds ! i)
              (filter (\<lambda>i. hasCommandChanged (previousCommands ! i) (cmds ! i))
                 [0..<checkLength])
      in (newCommands @ changedCommands, \<lparr>buffer = buffer', commands = cmds\<rparr>))"

text \<open>A sequence of \<open>append\<close> calls, one for each chunk.\<close>

fun appendAll :: "string list \<Rightarrow> Lexer \<Rightarrow> Lexer" where
  "appendAll [] st = st"
| "appendAll (ch # chs) st = appendAll chs (snd (lexer_append ch st))"

section \<open>Debounced XML stream callbacks (context/ai-query.ts)\<close>

text \<open>
  The three callbacks that \<open>chatStreamXml\<close> gives to the tag parser are called by the
  parser, which is not part of the sources, with these events.  Every event carries the
  value that \<open>Date.now()\<close> has when the parser raises it, in milliseconds; only the content
  callback reads it.
\<close>

datatype parser_event =
    Content string string
  | TagOpen string "(string \<times> string) list"
  | TagEnd string string

text \<open>The calls that reach the handlers of the caller of \<open>chatStreamXml\<close>.\<close>

datatype handler_call =
    OnStream string string
  | OnTagOpen string "(string \<times> string) list"
  | OnTagEnd string string

text \<open>Each handler is optional; the record says which ones the caller has given.\<close>

record Handlers =
  onStreamGiven :: bool
  onTagOpenGiven :: bool
  onTagEndGiven :: bool

record StreamState =
  streamBuffer :: "(string \<times> string) option"
  lastUpdateTime :: int
  handlerCalls :: "handler_call list"

definition UPDATE_INTERVAL :: int where
  "UPDATE_INTERVAL = 16"

definition initialStreamState :: StreamState where
  "initialStreamState = \<lparr>streamBuffer = None, lastUpdateTime = 0, handlerCalls = []\<rparr>"

definition flushBuffer :: "Handlers \<Rightarrow> StreamState \<Rightarrow> StreamState" where
  "flushBuffer hs st =
     st\<lparr>streamBuffer := None,
        handlerCalls := handlerCalls st @
          (case streamBuffer st of
             Some (tagName, text) \<Rightarrow> if onStreamGiven hs then [OnStream tagName text] else []
           | None \<Rightarrow> [])\<rparr>"

text \<open>The content callback: the update is buffered, or delivered at once.\<close>

definition onContent :: "Handlers \<Rightarrow> int \<Rightarrow> string \<Rightarrow> string \<Rightarrow> StreamState \<Rightarrow> StreamState" where
  "onContent hs now tagName text st =
     (if now - lastUpdateTime st < UPDATE_INTERVAL
      then st\<lparr>streamBuffer := Some (tagName, text)\<rparr>
      else st\<lparr>lastUpdateTime := now,
              handlerCalls := handlerCalls st @
                (if onStreamGiven hs then [OnStream tagName text] else [])\<rparr>)"

definition onTagOpenCallback ::
  "Handlers \<Rightarrow> string \<Rightarrow> (string \<times> string) list \<Rightarrow> StreamState \<Rightarrow> StreamState" where
  "onTagOpenCallback hs tagName attributes st =
     st\<lparr>handlerCalls := handlerCalls st @
          (if onTagOpenGiven hs then [OnTagOpen tagName attributes] else [])\<rparr>"

definition onTagEndCallback :: "Handlers \<Rightarrow> string \<Rightarrow> string \<Rightarrow> StreamState \<Rightarrow> StreamState" where
  "onTagEndCallback hs tagName fullText st =
     (let st' = flushBuffer hs st
      in st'\<lparr>handlerCalls := handlerCalls st' @
               (if onTagEndGiven hs then [OnTagEnd tagName fullText] else [])\<rparr>)"

fun parserEvents :: "Handlers \<Rightarrow> (int \<times> parser_event) list \<Rightarrow> StreamState \<Rightarrow> StreamState" where
  "parserEvents hs [] st = st"
| "parserEvents hs ((now, Content tagName text) # evs) st =
     parserEvents hs evs (onContent hs now tagName text st)"
| "parserEvents hs ((now, TagOpen tagName attributes) # evs) st =
     parserEvents hs evs (onTagOpenCallback hs tagName attributes st)"
| "parserEvents hs ((now, TagEnd tagName fullText) # evs) st =
     parserEvents hs evs (onTagEndCallback hs tagName fullText st)"

text \<open>
  \<open>chatStreamXml\<close>, for the events that the parser raises while the chat stream runs:
  the calls made to the handlers, the final \<open>flushBuffer\<close> included.
\<close>

definition chatStreamXml :: "Handlers \<Rightarrow> (int \<times> parser_event) list \<Rightarrow> handler_call list" where
  "chatStreamXml hs evs =
     handlerCalls (flushBuffer hs (parserEvents hs evs initialStreamState))"

definition allHandlers :: Handlers where
  "allHandlers = \<lparr>onStreamGiven = True, onTagOpenGiven = True, onTagEndGiven = True\<rparr>"

section \<open>The event-stream transport (context/ai-api.ts)\<close>

record RetryConfig =
  maxRetries :: nat
  initialDelayMs :: rat
  maxDelayMs :: rat
  backoffMultiplier :: rat
  jitterMs :: rat

definition RETRY_CONFIG :: RetryConfig where
  "RETRY_CONFIG =
     \<lparr>maxRetries = 3, initialDelayMs = 1000, maxDelayMs = 10000, backoffMultiplier = 2,
      jitterMs = 500\<rparr>"

text \<open>
  \<open>calculateRetryDelay\<close>.  The second argument is the value that \<open>Math.random()\<close> returns
  in this call, a number that is at least 0 and less than 1.
\<close>

definition calculateRetryDelay :: "nat \<Rightarrow> rat \<Rightarrow> rat" where
  "calculateRetryDelay attemptNumber random =
     (let delay = min (initialDelayMs RETRY_CONFIG
                        * backoffMultiplier RETRY_CONFIG ^ attemptNumber)
                      (maxDelayMs RETRY_CONFIG);
          jitter = random * jitterMs RETRY_CONFIG
      in delay + jitter)"

subsection \<open>JSON values and the reads of the code\<close>

datatype json =
    JNull
  | JBool bool
  | JNumber rat
  | JString string
  | JArray "json list"
  | JObject "(string \<times> json) list"

text \<open>
  A JavaScript value is a JSON value or \<open>undefined\<close> (\<open>None\<close>).  Reading a property of
  \<open>undefined\<close> or \<open>null\<close> throws a \<open>TypeError\<close>.  The code reads the properties
  \<open>choices\<close>, \<open>0\<close>, \<open>delta\<close> and \<open>content\<close>: an object has the properties of its
  fields, an array and a string have the property \<open>0\<close> when they are not empty, and
  every other read gives \<open>undefined\<close>.
\<close>

fun getProperty :: "json option \<Rightarrow> string \<Rightarrow> js_exn + json option" where
  "getProperty None key = Inl TypeError"
| "getProperty (Some JNull) key = Inl TypeError"
| "getProperty (Some (JObject kvs)) key = Inr (map_of kvs key)"
| "getProperty (Some (JArray xs)) key =
     Inr (if key = ''0'' then (case xs of [] \<Rightarrow> None | x # _ \<Rightarrow> Some x) else None)"
| "getProperty (Some (JString s)) key =
     Inr (if key = ''0'' then (case s of [] \<Rightarrow> None | c # _ \<Rightarrow> Some (JString [c]))
          else None)"
| "getProperty (Some (JBool b)) key = Inr None"
| "getProperty (Some (JNumber n)) key = Inr None"

text \<open>The truth value of a JavaScript value in a condition.\<close>

fun truthy :: "json option \<Rightarrow> bool" where
  "truthy None = False"
| "truthy (Some JNull) = False"
| "truthy (Some (JBool b)) = b"
| "truthy (Some (JNumber n)) = (n \<noteq> 0)"
| "truthy (Some (JString s)) = (s \<noteq> [])"
| "truthy (Some (JArray xs)) = True"
| "truthy (Some (JObject kvs)) = True"

text \<open>
  What the code takes from the JavaScript runtime and from its caller: \<open>JSON.parse\<close>
  (\<open>None\<close> when it throws a \<open>SyntaxError\<close>), the conversion to a string of a value that
  is not a string, and whether the caller has given the optional callbacks \<open>onStream\<close>
  and \<open>onEnd\<close>.
\<close>

record js_env =
  JSON_parse :: "string \<Rightarrow> json option"
  toText :: "json \<Rightarrow> string"
  onStreamDefined :: bool
  onEndDefined :: bool

text \<open>The string that \<open>fullText += delta\<close> appends.\<close>

definition textOf :: "js_env \<Rightarrow> json \<Rightarrow> string" where
  "textOf env v = (case v of JString s \<Rightarrow> s | _ \<Rightarrow> toText env v)"

text \<open>The read \<open>json.choices[0].delta.content\<close>.\<close>

definition deltaContent :: "json \<Rightarrow> js_exn + json option" where
  "deltaContent j =
     (case getProperty (Some j) ''choices'' of
        Inl e \<Rightarrow> Inl e
      | Inr choices \<Rightarrow>
          (case getProperty choices ''0'' of
             Inl e \<Rightarrow> Inl e
           | Inr choice \<Rightarrow>
               (case getProperty choice ''delta'' of
                  Inl e \<Rightarrow> Inl e
                | Inr delta \<Rightarrow> getProperty delta ''content'')))"

subsection \<open>The callbacks of directChatOpenAi\<close>

text \<open>An event of the stream; the code reads its \<open>data\<close> field only.\<close>

record sse_event =
  data :: string

text \<open>
  The variables of \<open>directChatOpenAi\<close> that its callbacks share, the state of the abort
  controller, and a record of what the callbacks do to the outside: the calls of
  \<open>onStream\<close> with their two arguments, the error messages shown by the toast layer and
  the number of calls of \<open>onEnd\<close>.  The fields \<open>attempts\<close> and \<open>delays\<close> record the
  connection attempts made and the delays waited between them.
\<close>

record ChatState =
  fullText :: string
  completionTokenCount :: nat
  tries :: nat
  currentAttempt :: nat
  aborted :: bool
  streamCalls :: "(string \<times> json) list"
  toasts :: "string list"
  endCalls :: nat
  attempts :: nat
  delays :: "rat list"

definition initialChatState :: ChatState where
  "initialChatState =
     \<lparr>fullText = [], completionTokenCount = 0, tries = maxRetries RETRY_CONFIG,
      currentAttempt = 0, aborted = False, streamCalls = [], toasts = [], endCalls = 0,
      attempts = 0, delays = []\<rparr>"

definition parsingError :: "ChatState \<Rightarrow> ChatState" where
  "parsingError st =
     st\<lparr>toasts := toasts st
          @ [''Received invalid response from AI service. Please try again.'']\<rparr>"

definition onmessage :: "js_env \<Rightarrow> sse_event \<Rightarrow> ChatState \<Rightarrow> ChatState" where
  "onmessage env ev st =
     (if data ev = ''[DONE]'' then st\<lparr>aborted := True\<rparr>
      else
        (case JSON_parse env (data ev) of
           None \<Rightarrow> parsingError st
         | Some j \<Rightarrow>
             (case deltaContent j of
                Inl e \<Rightarrow> parsingError st
              | Inr None \<Rightarrow> st
              | Inr (Some delta) \<Rightarrow>
                  if truthy (Some delta) then
                    st\<lparr>completionTokenCount := completionTokenCount st + 1,
                       fullText := fullText st @ textOf env delta,
                       streamCalls := streamCalls st @
                         (if onStreamDefined env
                          then [(fullText st @ textOf env delta, delta)] else [])\<rparr>
                  else st)))"

definition onclose :: "js_env \<Rightarrow> ChatState \<Rightarrow> ChatState" where
  "onclose env st = (if onEndDefined env then st\<lparr>endCalls := endCalls st + 1\<rparr> else st)"

text \<open>
  A response as \<open>onopen\<close> reads it: the status, of which \<open>response.ok\<close> is a function,
  and the content type header, which may be missing.
\<close>

record Response =
  status :: nat
  contentType :: "string option"

definition ok :: "Response \<Rightarrow> bool" where
  "ok r = (200 \<le> status r \<and> status r \<le> 299)"

definition startsWith :: "string \<Rightarrow> string \<Rightarrow> bool" where
  "startsWith s p = (take (length p) s = p)"

text \<open>\<open>String.prototype.includes\<close>: the second string occurs in the first.\<close>

fun str_includes :: "string \<Rightarrow> string \<Rightarrow> bool" where
  "str_includes [] p = (p = [])"
| "str_includes (c # cs) p = (startsWith (c # cs) p \<or> str_includes cs p)"

definition EventStreamContentType :: string where
  "EventStreamContentType = ''text/event-stream''"

text \<open>
  \<open>onopen\<close> returns or throws.  With a good status and no content type header the call
  of \<open>includes\<close> on \<open>null\<close> throws a \<open>TypeError\<close>.
\<close>

definition onopen :: "Response \<Rightarrow> js_exn + unit" where
  "onopen r =
     (if ok r then
        (case contentType r of
           None \<Rightarrow> Inl TypeError
         | Some ct \<Rightarrow>
             if str_includes ct EventStreamContentType then Inr ()
             else if status r \<ge> 400 \<and> status r < 500 \<and> status r \<noteq> 429
             then Inl (Thrown ''FatalError'')
             else Inl (Thrown ''RetriableError''))
      else if status r \<ge> 400 \<and> status r < 500 \<and> status r \<noteq> 429
      then Inl (Thrown ''FatalError'')
      else Inl (Thrown ''RetriableError''))"

text \<open>
  \<open>err.toString()\<close>: a thrown string is itself; for an error object the name of its
  class stands for its string, which starts with that name and is neither \<open>FatalError\<close>
  nor \<open>RetriableError\<close>.
\<close>

fun errToString :: "js_exn \<Rightarrow> string" where
  "errToString (Thrown s) = s"
| "errToString Error = ''Error''"
| "errToString TypeError = ''TypeError''"
| "errToString SyntaxError = ''SyntaxError''"

definition retryLater :: "rat \<Rightarrow> ChatState \<Rightarrow> (js_exn + rat) \<times> ChatState" where
  "retryLater random st =
     (Inr (calculateRetryDelay (currentAttempt st + 1) random),
      st\<lparr>tries := tries st - 1, currentAttempt := currentAttempt st + 1\<rparr>)"

text \<open>
  \<open>onerror\<close> throws or returns the delay before the next attempt; the second argument
  is the value of \<open>Math.random()\<close> in this call.
\<close>

definition onerror :: "js_exn \<Rightarrow> rat \<Rightarrow> ChatState \<Rightarrow> (js_exn + rat) \<times> ChatState" where
  "onerror err random st =
     (let errText = errToString err in
      if errText \<in> set [''FatalError''] then
        (Inl err,
         st\<lparr>toasts := toasts st
              @ [''AI request failed. Please check your API key and try again.'']\<rparr>)
      else if errText \<in> set [''RetriableError''] then
        (if tries st \<le> 0 then
           (Inl (Thrown (''Apologies, the AI service is currently facing heavy traffic, ''
                   @ ''causing delays in processing requests. ''
                   @ ''Please be patient and try again later.'')),
            st\<lparr>toasts := toasts st
                 @ [''AI service is experiencing high traffic. ''
                    @ ''Please try again in a few moments.'']\<rparr>)
         else retryLater random st)
      else
        (if tries st \<le> 0 then
           (Inl err,
            st\<lparr>toasts := toasts st
                 @ [''Network connection failed. ''
                    @ ''Please check your internet connection.'']\<rparr>)
         else retryLater random st))"

lemma onerror_retry_tries:
  "onerror err random st = (Inr delay, st') \<Longrightarrow> tries st' < tries st"
  by (auto simp: onerror_def retryLater_def Let_def split: if_splits)

subsection \<open>The connection attempts\<close>

text \<open>
  Modelled from the spec: the retry loop and the dispatch of the events belong to the
  library function \<open>fetchEventSource\<close>, which is not part of the sources.  Each attempt
  opens a connection and calls \<open>onopen\<close> with the response; when the connection fails or
  \<open>onopen\<close> throws, \<open>onerror\<close> is called, and the operation is rejected with what
  \<open>onerror\<close> throws or a new attempt is made after the delay that it returns; when
  \<open>onopen\<close> returns, the events are given to \<open>onmessage\<close> in their order, once each,
  until the signal is aborted, which stops the connection and suppresses every further
  call; \<open>onclose\<close> is called when the stream ends unaborted, and the operation is
  resolved.
\<close>

datatype attempt = ConnectFailed | Responded Response "sse_event list"

datatype outcome = Resolved | Rejected js_exn

definition connect :: "attempt \<Rightarrow> js_exn + sse_event list" where
  "connect a =
     (case a of
        ConnectFailed \<Rightarrow> Inl TypeError
      | Responded r evs \<Rightarrow> (case onopen r of Inl e \<Rightarrow> Inl e | Inr u \<Rightarrow> Inr evs))"

fun deliver :: "js_env \<Rightarrow> sse_event list \<Rightarrow> ChatState \<Rightarrow> ChatState" where
  "deliver env [] st = st"
| "deliver env (ev # evs) st =
     (if aborted st then st else deliver env evs (onmessage env ev st))"

text \<open>
  The transport gives the outcome of the attempt of each number, counted from 0, and
  \<open>random\<close> the value of \<open>Math.random()\<close> after the failure of that attempt.
\<close>

function fetchEventSource ::
  "js_env \<Rightarrow> (nat \<Rightarrow> attempt) \<Rightarrow> (nat \<Rightarrow> rat) \<Rightarrow> ChatState \<Rightarrow> outcome \<times> ChatState" where
  "fetchEventSource env transport random st =
     (case connect (transport (attempts st)) of
        Inr evs \<Rightarrow>
          (let st' = deliver env evs (st\<lparr>attempts := attempts st + 1\<rparr>)
           in (Resolved, if aborted st' then st' else onclose env st'))
      | Inl err \<Rightarrow>
          (case onerror err (random (attempts st)) (st\<lparr>attempts := attempts st + 1\<rparr>) of
             (Inl thrown, st') \<Rightarrow> (Rejected thrown, st')
           | (Inr delay, st') \<Rightarrow>
               fetchEventSource env transport random (st'\<lparr>delays := delays st' @ [delay]\<rparr>)))"
  by pat_completeness auto
termination
proof (relation "measure (\<lambda>(env, transport, random, st). tries st)", goal_cases)
  case 1
  show ?case by simp
next
  case (2 env transport random st err x st' delay)
  then show ?case
    using onerror_retry_tries[of err "random (attempts st)"
        "st\<lparr>attempts := attempts st + 1\<rparr>" delay st']
    by simp
qed

declare fetchEventSource.simps [simp del]

text \<open>\<open>directChatOpenAi\<close>: how the operation ends, and the state it ends in.\<close>

definition directChatOpenAi ::
  "js_env \<Rightarrow> (nat \<Rightarrow> attempt) \<Rightarrow> (nat \<Rightarrow> rat) \<Rightarrow> outcome \<times> ChatState" where
  "directChatOpenAi env transport random =
     fetchEventSource env transport random initialChatState"

text \<open>
  What the caller sees of the stream: the accumulated text, the token count, the abort
  signal and the calls of \<open>onStream\<close>.
\<close>

definition streamView :: "ChatState \<Rightarrow> string \<times> nat \<times> bool \<times> (string \<times> json) list" where
  "streamView st = (fullText st, completionTokenCount st, aborted st, streamCalls st)"

text \<open>
  An event that is not the end marker and whose data is not parseable JSON or has no
  \<open>choices[0].delta.content\<close>: the read throws or gives \<open>undefined\<close>.
\<close>

definition malformed :: "js_env \<Rightarrow> sse_event \<Rightarrow> bool" where
  "malformed env ev =
     (data ev \<noteq> ''[DONE]'' \<and>
      (case JSON_parse env (data ev) of
         None \<Rightarrow> True
       | Some j \<Rightarrow> (case deltaContent j of Inl e \<Rightarrow> True | Inr d \<Rightarrow> d = None)))"

text \<open>Sample data: a runtime that parses one event, and three transports.\<close>

definition helloEvent :: sse_event where
  \<open>helloEvent = \<lparr>data = ''{"choices":[{"delta":{"content":"Hello"}}]}''\<rparr>\<close>

definition helloJson :: json where
  "helloJson =
     JObject [(''choices'',
       JArray [JObject [(''delta'', JObject [(''content'', JString ''Hello'')])]])]"

definition sampleEnv :: js_env where
  "sampleEnv =
     \<lparr>JSON_parse = (\<lambda>s. if s = data helloEvent then Some helloJson
                         else if s = ''{}'' then Some (JObject []) else None),
      toText = (\<lambda>j. ''''), onStreamDefined = True, onEndDefined = True\<rparr>"

definition busyTransport :: "nat \<Rightarrow> attempt" where
  "busyTransport n = Responded \<lparr>status = 503, contentType = None\<rparr> []"

definition recoveringTransport :: "nat \<Rightarrow> attempt" where
  "recoveringTransport n =
     (if n = 0 then Responded \<lparr>status = 429, contentType = None\<rparr> []
      else Responded \<lparr>status = 200, contentType = Some ''text/event-stream; charset=utf-8''\<rparr>
             [helloEvent, \<lparr>data = ''[DONE]''\<rparr>])"

definition unauthorizedTransport :: "nat \<Rightarrow> attempt" where
  "unauthorizedTransport n = Responded \<lparr>status = 401, contentType = None\<rparr> []"

definition noJitter :: "nat \<Rightarrow> rat" where
  "noJitter n = 0"

section \<open>The stream reader of the OpenRouter node (readChunk)\<close>

text \<open>
  The guarded read \<open>json.choices && json.choices[0] && json.choices[0].delta &&
  json.choices[0].delta.content\<close>: the first value that is not truthy, or the last one.
\<close>

definition guardedDeltaContent :: "json \<Rightarrow> js_exn + json option" where
  "guardedDeltaContent j =
     (case getProperty (Some j) ''choices'' of
        Inl e \<Rightarrow> Inl e
      | Inr choices \<Rightarrow>
          if \<not> truthy choices then Inr choices
          else
            (case getProperty choices ''0'' of
               Inl e \<Rightarrow> Inl e
             | Inr choice \<Rightarrow>
                 if \<not> truthy choice then Inr choice
                 else
                   (case getProperty choice ''delta'' of
                      Inl e \<Rightarrow> Inl e
                    | Inr delta \<Rightarrow>
                        if \<not> truthy delta then Inr delta
                        else getProperty delta ''content'')))"

text \<open>
  The variables of the node that the reader uses: the unfinished line kept between
  chunks, the text streamed so far, the full response, the conversation, the user
  message, and the outputs flagged and signals sent, in their order.
\<close>

record NodeState =
  lineBuffer :: string
  streamingText :: string
  fullResponse :: string
  nodeMessages :: "(string \<times> string) list"
  userMessage :: string
  outputs :: "string list"

text \<open>\<open>buffer.split('\n')\<close>: the lines between the line feeds, at least one.\<close>

fun split_lines :: "string \<Rightarrow> string list" where
  "split_lines [] = [[]]"
| "split_lines (c # cs) =
     (case split_lines cs of
        [] \<Rightarrow> [[c]]
      | l # ls \<Rightarrow> if c = CHR 0x0A then [] # l # ls else (c # l) # ls)"

text \<open>What the reader does at the end marker.\<close>

definition finishResponse :: "NodeState \<Rightarrow> NodeState" where
  "finishResponse st =
     st\<lparr>fullResponse := streamingText st,
        nodeMessages := nodeMessages st
          @ [(''user'', userMessage st), (''assistant'', streamingText st)],
        outputs := outputs st @ [''fullResponse'', ''completed'']\<rparr>"

text \<open>
  One pass of the body of the loop over the lines of a chunk.  The first component of
  the result tells whether the line is the end marker, where the reader returns
  without reading on.
\<close>

definition processLine :: "js_env \<Rightarrow> string \<Rightarrow> NodeState \<Rightarrow> bool \<times> NodeState" where
  "processLine env line st =
     (if startsWith line ''data: '' then
        (if drop 6 line = ''[DONE]'' then (True, finishResponse st)
         else
           (case JSON_parse env (drop 6 line) of
              None \<Rightarrow> (False, st)
            | Some j \<Rightarrow>
                (case guardedDeltaContent j of
                   Inl e \<Rightarrow> (False, st)
                 | Inr None \<Rightarrow> (False, st)
                 | Inr (Some delta) \<Rightarrow>
                     if truthy (Some delta) then
                       (False,
                        st\<lparr>streamingText := streamingText st @ textOf env delta,
                           outputs := outputs st @ [''response'', ''streaming'']\<rparr>)
                     else (False, st))))
      else (False, st))"

text \<open>The loop over the complete lines of a chunk.\<close>

fun processLines :: "js_env \<Rightarrow> string list \<Rightarrow> NodeState \<Rightarrow> bool \<times> NodeState" where
  "processLines env [] st = (False, st)"
| "processLines env (line # lines) st =
     (case processLine env line st of
        (True, st') \<Rightarrow> (True, st')
      | (False, st') \<Rightarrow> processLines env lines st')"

text \<open>\<open>readChunk\<close>, for the decoded chunks that the reader gets before the stream is done.\<close>

fun readChunks :: "js_env \<Rightarrow> string list \<Rightarrow> NodeState \<Rightarrow> NodeState" where
  "readChunks env [] st = st"
| "readChunks env (chunk # chunks) st =
     (let lines = split_lines (lineBuffer st @ chunk)
      in case processLines env (butlast lines) (st\<lparr>lineBuffer := last lines\<rparr>) of
           (True, st') \<Rightarrow> st'
         | (False, st') \<Rightarrow> readChunks env chunks st')"

definition initialNode :: NodeState where
  "initialNode =
     \<lparr>lineBuffer = [], streamingText = [], fullResponse = [], nodeMessages = [],
      userMessage = ''Hi'', outputs = []\<rparr>"

text \<open>Sample data: the line of the sample event and the line of the end marker.\<close>

definition helloLine :: string where
  "helloLine = ''data: '' @ data helloEvent"

definition doneEvent :: sse_event where
  "doneEvent = \<lparr>data = ''[DONE]''\<rparr>"

section \<open>Properties of the history truncation\<close>

lemma truncateLoop_le: "truncateLoop h avail k t \<le> k"
  by (induction k arbitrary: t) (auto intro: le_SucI)

lemma truncateLoop_keeps_two:
  "truncateLoop h avail k t = 0 \<or> truncateLoop h avail k t + 2 \<le> length h"
  by (induction k arbitrary: t) auto

lemma truncateLoop_NaN: "truncateLoop h None k t = 0"
  by (induction k arbitrary: t) (simp_all add: numberLess_def)

lemma estimateTokens_drop:
  "i < length h \<Longrightarrow>
   estimateTokens (drop i h) = messageTokens (h ! i) + estimateTokens (drop (Suc i) h)"
  by (simp add: estimateTokens_def flip: Cons_nth_drop_Suc)

lemma estimateTokens_nonneg: "0 \<le> estimateTokens ms"
  by (auto simp: estimateTokens_def messageTokens_def CHARS_PER_TOKEN_def
      intro!: sum_list_nonneg)

lemma estimateTokens_drop_mono:
  assumes "j \<le> k"
  shows "estimateTokens (drop k h) \<le> estimateTokens (drop j h)"
proof -
  have "drop j h = take (k - j) (drop j h) @ drop k h"
    using assms by (metis append_take_drop_id drop_drop le_add_diff_inverse2)
  then have "estimateTokens (drop j h)
      = estimateTokens (take (k - j) (drop j h)) + estimateTokens (drop k h)"
    by (metis estimateTokens_def map_append sum_list_append)
  then show ?thesis
    using estimateTokens_nonneg[of "take (k - j) (drop j h)"] by simp
qed

text \<open>
  The invariant of the loop: the running total is the cost of the messages kept so far,
  and every suffix that starts at a visited index before the last two is within the
  budget.  At the end the loop has cut right after the most recent message, among those
  before the last two, whose inclusion exceeds the budget.
\<close>

lemma truncateLoop_cut:
  assumes "k \<le> length h" and "t = estimateTokens (drop k h)"
    and "\<forall>j. k \<le> j \<and> j + 2 < length h \<longrightarrow> estimateTokens (drop j h) \<le> a"
  shows "(\<forall>j. truncateLoop h (Some a) k t \<le> j \<and> j + 2 < length h
            \<longrightarrow> estimateTokens (drop j h) \<le> a)
         \<and> (0 < truncateLoop h (Some a) k t
            \<longrightarrow> a < estimateTokens (drop (truncateLoop h (Some a) k t - 1) h))"
  using assms
proof (induction k arbitrary: t)
  case 0
  then show ?case by simp
next
  case (Suc i)
  let ?mt = "messageTokens (h ! i)"
  have il: "i < length h" using Suc.prems(1) by simp
  have t': "t + ?mt = estimateTokens (drop i h)"
    using Suc.prems(2) estimateTokens_drop[OF il] by simp
  show ?case
  proof (cases "a < t + ?mt \<and> int i < int (length h) - 2")
    case True
    then have "truncateLoop h (Some a) (Suc i) t = Suc i"
      by (simp add: numberLess_def)
    with True t' Suc.prems(3) show ?thesis by simp
  next
    case False
    then have eq: "truncateLoop h (Some a) (Suc i) t = truncateLoop h (Some a) i (t + ?mt)"
      by (auto simp: numberLess_def)
    have inv: "\<forall>j. i \<le> j \<and> j + 2 < length h \<longrightarrow> estimateTokens (drop j h) \<le> a"
    proof (intro allI impI)
      fix j
      assume j: "i \<le> j \<and> j + 2 < length h"
      show "estimateTokens (drop j h) \<le> a"
      proof (cases "j = i")
        case True
        with j False t' show ?thesis by auto
      next
        case False
        with j Suc.prems(3) show ?thesis by (simp add: Suc_le_eq)
      qed
    qed
    show ?thesis
      unfolding eq using Suc.IH[OF _ t' inv] il by simp
  qed
qed

text \<open>
  Claim C1, as amended.  A non-empty history gives a non-empty result, for every model
  name.  For a model name that is no inherited property of the table the available
  budget is a number: 8192 for \<open>gpt-4\<close> and 4096 for every other name, less a quarter
  of the characters of system prompt and code and the reserve of 1000; the estimated
  cost of a list is a quarter of its characters.  With such a budget \<open>a\<close>: below 100 the result
  is the last message alone (the fallback).  From 100 on, the result is the history
  from an index \<open>start\<close> on that keeps the two most recent messages; every longer
  suffix between \<open>start\<close> and these two is within the budget, and when something is cut
  the suffix with the newest cut message exceeds the budget.  So the cost of the result
  is within the budget whenever the two most recent messages fit in it, and when they
  do not fit the result is these two messages.
\<close>

theorem truncate_budget:
  "(history \<noteq> [] \<longrightarrow> truncateHistoryForTokenLimit history m s c \<noteq> [])
   \<and> (m \<notin> set inheritedProperties \<longrightarrow>
        availableForHistory m s c
          = Some ((if m = ''gpt-4'' then 8192 else 4096) - (s + c) / 4 - 1000))
   \<and> estimateTokens ms = sum_list (map (\<lambda>x. of_nat (length (content x)) / 4) ms)
   \<and> (availableForHistory m s c = Some a \<and> a < 100 \<longrightarrow>
        truncateHistoryForTokenLimit history m s c
          = (if history = [] then [] else [last history]))
   \<and> (availableForHistory m s c = Some a \<and> 100 \<le> a \<longrightarrow>
        (\<exists>start.
            truncateHistoryForTokenLimit history m s c = drop start history
            \<and> start \<le> length history - 2
            \<and> (\<forall>j. start \<le> j \<and> j + 2 < length history
                  \<longrightarrow> estimateTokens (drop j history) \<le> a)
            \<and> (0 < start \<longrightarrow> a < estimateTokens (drop (start - 1) history)))
        \<and> (estimateTokens (drop (length history - 2) history) \<le> a \<longrightarrow>
             estimateTokens (truncateHistoryForTokenLimit history m s c) \<le> a)
        \<and> (a < estimateTokens (drop (length history - 2) history) \<longrightarrow>
             truncateHistoryForTokenLimit history m s c
               = drop (length history - 2) history))"
proof (intro conjI impI)
  assume ne: "history \<noteq> []"
  show "truncateHistoryForTokenLimit history m s c \<noteq> []"
    using ne truncateLoop_keeps_two[of history "availableForHistory m s c" "length history" 0]
    by (auto simp: truncateHistoryForTokenLimit_def Let_def)
next
  assume "m \<notin> set inheritedProperties"
  then show "availableForHistory m s c
      = Some ((if m = ''gpt-4'' then 8192 else 4096) - (s + c) / 4 - 1000)"
    by (auto simp: availableForHistory_def maxTokensOf_def MODEL_TOKEN_LIMITS_def Let_def
        CHARS_PER_TOKEN_def RESPONSE_RESERVE_def)
next
  show "estimateTokens ms = sum_list (map (\<lambda>x. of_nat (length (content x)) / 4) ms)"
    by (induction ms) (simp_all add: estimateTokens_def messageTokens_def CHARS_PER_TOKEN_def)
next
  assume "availableForHistory m s c = Some a \<and> a < 100"
  then show "truncateHistoryForTokenLimit history m s c
      = (if history = [] then [] else [last history])"
    by (simp add: truncateHistoryForTokenLimit_def Let_def numberLess_def last_conv_nth)
next
  assume a: "availableForHistory m s c = Some a \<and> 100 \<le> a"
  let ?n = "length history"
  let ?s = "truncateLoop history (Some a) ?n 0"
  have r: "truncateHistoryForTokenLimit history m s c = drop ?s history"
    using a by (simp add: truncateHistoryForTokenLimit_def Let_def numberLess_def)
  have two: "?s \<le> ?n - 2"
    using truncateLoop_keeps_two[of history "Some a" ?n 0] by auto
  have cut: "(\<forall>j. ?s \<le> j \<and> j + 2 < ?n \<longrightarrow> estimateTokens (drop j history) \<le> a)
      \<and> (0 < ?s \<longrightarrow> a < estimateTokens (drop (?s - 1) history))"
    by (rule truncateLoop_cut) (simp_all add: estimateTokens_def)
  note within = cut[THEN conjunct1] and beyond = cut[THEN conjunct2]
  show "\<exists>start.
      truncateHistoryForTokenLimit history m s c = drop start history
      \<and> start \<le> length history - 2
      \<and> (\<forall>j. start \<le> j \<and> j + 2 < length history
            \<longrightarrow> estimateTokens (drop j history) \<le> a)
      \<and> (0 < start \<longrightarrow> a < estimateTokens (drop (start - 1) history))"
    by (rule exI[of _ ?s]) (intro conjI r two within beyond)
  show "estimateTokens (truncateHistoryForTokenLimit history m s c) \<le> a"
    if fit: "estimateTokens (drop (length history - 2) history) \<le> a"
  proof (cases "?s + 2 < ?n")
    case True
    show ?thesis
      unfolding r by (rule within[rule_format, OF conjI, OF le_refl True])
  next
    case False
    with two have "?s = ?n - 2" by simp
    with fit show ?thesis unfolding r by simp
  qed
  show "truncateHistoryForTokenLimit history m s c = drop (length history - 2) history"
    if over: "a < estimateTokens (drop (length history - 2) history)"
  proof (cases "?s + 2 < ?n")
    case True
    have "estimateTokens (drop ?s history) \<le> a"
      by (rule within[rule_format, OF conjI, OF le_refl True])
    moreover have "estimateTokens (drop (?n - 2) history) \<le> estimateTokens (drop ?s history)"
      by (rule estimateTokens_drop_mono[OF two])
    ultimately show ?thesis using over by simp
  next
    case False
    with two have "?s = ?n - 2" by simp
    then show ?thesis unfolding r by simp
  qed
qed

lemmas truncation_defs =
  truncateHistoryForTokenLimit_def availableForHistory_def maxTokensOf_def
  MODEL_TOKEN_LIMITS_def CHARS_PER_TOKEN_def RESPONSE_RESERVE_def messageTokens_def
  estimateTokens_def numberLess_def inheritedProperties_def

text \<open>
  Under \<open>gpt-4\<close> with no system prompt and no code, 7192 tokens are available.  In the
  long sample history the last two messages cost 4000 tokens and fit; the last three
  cost 6000 tokens and are the result; the whole history would cost 10000 tokens, and
  its first message is cut.  With a system prompt of 30000 characters an unknown model
  has a budget below 100 and the fallback returns the last message.  In the heavy sample
  history the last two messages cost 8000 tokens, do not fit and are the result.
\<close>

theorem truncate_budget_witness:
  "longHistory \<noteq> []
   \<and> ''gpt-4'' \<notin> set inheritedProperties
   \<and> availableForHistory ''gpt-4'' 0 0 = Some 7192
   \<and> (100::rat) \<le> 7192
   \<and> estimateTokens (drop (length longHistory - 2) longHistory) \<le> 7192
   \<and> truncateHistoryForTokenLimit longHistory ''gpt-4'' 0 0 = drop 1 longHistory
   \<and> estimateTokens (truncateHistoryForTokenLimit longHistory ''gpt-4'' 0 0) \<le> 7192
   \<and> 7192 < estimateTokens (drop (1 - 1) longHistory)
   \<and> availableForHistory ''other'' 30000 0 = Some (- 4404)
   \<and> (- 4404 :: rat) < 100
   \<and> truncateHistoryForTokenLimit longHistory ''other'' 30000 0 = [last longHistory]
   \<and> 7192 < estimateTokens (drop (length heavyHistory - 2) heavyHistory)
   \<and> truncateHistoryForTokenLimit heavyHistory ''gpt-4'' 0 0
       = drop (length heavyHistory - 2) heavyHistory"
proof -
  note L = truncate_budget[where history = longHistory and m = "''gpt-4''" and s = 0
      and c = 0 and a = 7192]
  note F = truncate_budget[where history = longHistory and m = "''other''" and s = 30000
      and c = 0 and a = "- 4404"]
  note H = truncate_budget[where history = heavyHistory and m = "''gpt-4''" and s = 0
      and c = 0 and a = 7192]
  have ne: "longHistory \<noteq> []"
    by (simp add: longHistory_def)
  have key: "''gpt-4'' \<notin> set inheritedProperties"
    by (simp add: inheritedProperties_def)
  have av: "availableForHistory ''gpt-4'' 0 0 = Some 7192"
    using L[THEN conjunct2, THEN conjunct1, rule_format, OF key]
    by simp
  have big: "availableForHistory ''gpt-4'' 0 0 = Some 7192 \<and> (100::rat) \<le> 7192"
    using av by simp
  have fit: "estimateTokens (drop (length longHistory - 2) longHistory) \<le> 7192"
    by (simp add: longHistory_def estimateTokens_def messageTokens_def CHARS_PER_TOKEN_def)
  have bound: "estimateTokens (truncateHistoryForTokenLimit longHistory ''gpt-4'' 0 0) \<le> 7192"
    using L[THEN conjunct2, THEN conjunct2, THEN conjunct2, THEN conjunct2, rule_format,
        OF big, THEN conjunct2, THEN conjunct1, rule_format, OF fit] .
  have res: "truncateHistoryForTokenLimit longHistory ''gpt-4'' 0 0 = drop 1 longHistory"
    by (simp add: truncation_defs longHistory_def)
  have cut: "7192 < estimateTokens (drop (1 - 1) longHistory)"
    by (simp add: longHistory_def estimateTokens_def messageTokens_def CHARS_PER_TOKEN_def)
  have low: "availableForHistory ''other'' 30000 0 = Some (- 4404) \<and> (- 4404 :: rat) < 100"
    by (simp add: truncation_defs)
  have fb: "truncateHistoryForTokenLimit longHistory ''other'' 30000 0 = [last longHistory]"
    using F[THEN conjunct2, THEN conjunct2, THEN conjunct2, THEN conjunct1, rule_format,
        OF low] ne
    by simp
  have over: "7192 < estimateTokens (drop (length heavyHistory - 2) heavyHistory)"
    by (simp add: heavyHistory_def estimateTokens_def messageTokens_def CHARS_PER_TOKEN_def)
  have two: "truncateHistoryForTokenLimit heavyHistory ''gpt-4'' 0 0
      = drop (length heavyHistory - 2) heavyHistory"
    using H[THEN conjunct2, THEN conjunct2, THEN conjunct2, THEN conjunct2, rule_format,
        OF big, THEN conjunct2, THEN conjunct2, rule_format, OF over] .
  show ?thesis
    using ne key av fit res bound cut low fb over two by simp
qed

text \<open>
  The claim as stated fails.  Under \<open>gpt-4\<close> with no system prompt and no code, 7192
  tokens are available, so the fallback is not taken; the two most recent messages of
  the heavy sample history, of 16000 characters each, are both returned and cost 8000
  tokens.  Under the model name \<open>toString\<close> the looked-up limit is an inherited
  function, the budget is no number, and the whole history is returned, which costs
  more than 8000 tokens, above the largest budget that a limit of the table allows,
  which is 7192.
\<close>

theorem truncate_budget_counterexample:
  "availableForHistory ''gpt-4'' 0 0 = Some 7192
   \<and> \<not> numberLess (availableForHistory ''gpt-4'' 0 0) (Some 100)
   \<and> truncateHistoryForTokenLimit heavyHistory ''gpt-4'' 0 0
       = [\<lparr>role = ''assistant'', content = replicate 16000 (CHR ''x'')\<rparr>,
          \<lparr>role = ''user'', content = replicate 16000 (CHR ''y'')\<rparr>]
   \<and> estimateTokens (truncateHistoryForTokenLimit heavyHistory ''gpt-4'' 0 0) = 8000
   \<and> \<not> estimateTokens (truncateHistoryForTokenLimit heavyHistory ''gpt-4'' 0 0) \<le> 7192
   \<and> availableForHistory ''toString'' 0 0 = None
   \<and> truncateHistoryForTokenLimit heavyHistory ''toString'' 0 0 = heavyHistory
   \<and> \<not> estimateTokens (truncateHistoryForTokenLimit heavyHistory ''toString'' 0 0)
         \<le> 8192 - 0 / CHARS_PER_TOKEN - RESPONSE_RESERVE"
  by (simp add: truncation_defs heavyHistory_def truncateLoop_NaN)

section \<open>Properties of the chat history\<close>

lemma length_truncateIfNeeded: "length (truncateIfNeeded msgs) \<le> MAX_MESSAGES"
  by (auto simp: truncateIfNeeded_def MAX_MESSAGES_def TRUNCATE_TO_def Let_def
      split: list.splits)

lemma add_bound: "length (messages (snd (add message newId h))) \<le> MAX_MESSAGES
    \<or> snd (add message newId h) = h"
  by (cases message) (simp_all add: add_def length_truncateIfNeeded)

lemma addAll_bound:
  "length (messages h) \<le> MAX_MESSAGES \<Longrightarrow>
   length (messages (addAll calls h)) \<le> MAX_MESSAGES"
proof (induction calls arbitrary: h)
  case Nil
  then show ?case by simp
next
  case (Cons call calls)
  obtain message newId where c: "call = (message, newId)" by (cases call)
  have "length (messages (snd (add message newId h))) \<le> MAX_MESSAGES"
    using add_bound[of message newId h] Cons.prems by auto
  then show ?case using Cons.IH c by simp
qed

lemma truncateIfNeeded_over:
  "MAX_MESSAGES < length msgs \<Longrightarrow>
   truncateIfNeeded msgs =
     (if msgType (hd msgs) = System then [hd msgs] else [])
     @ drop (length msgs - TRUNCATE_TO) msgs"
  by (cases msgs) (auto simp: truncateIfNeeded_def Let_def)

lemma truncateIfNeeded_snoc:
  "truncateIfNeeded (xs @ [x]) \<noteq> [] \<and> last (truncateIfNeeded (xs @ [x])) = x"
  by (auto simp: truncateIfNeeded_def Let_def TRUNCATE_TO_def MAX_MESSAGES_def
      split: list.splits)

text \<open>A call that leaves at most 50 messages only appends its message.\<close>

lemma add_within:
  "length (messages h) < 50 \<Longrightarrow>
   messages (snd (add (Some m) newId h)) = messages h @ [stored m newId]"
  by (simp add: add_def truncateIfNeeded_def MAX_MESSAGES_def)

text \<open>A call that leaves more than 50 messages cuts the list.\<close>

lemma add_over:
  assumes "50 \<le> length (messages h)"
  shows "messages (snd (add (Some m) newId h)) =
     (if msgType (hd (messages h)) = System then [hd (messages h)] else [])
     @ drop (length (messages h) + 1 - 30) (messages h @ [stored m newId])"
proof -
  have over: "MAX_MESSAGES < length (messages h @ [stored m newId])"
    using assms by (simp add: MAX_MESSAGES_def)
  have "messages h \<noteq> []" using assms by auto
  then have "hd (messages h @ [stored m newId]) = hd (messages h)" by simp
  then show ?thesis
    using truncateIfNeeded_over[OF over] by (simp add: add_def TRUNCATE_TO_def)
qed

lemma addAll_append: "addAll (xs @ ys) h = addAll ys (addAll xs h)"
  by (induction xs arbitrary: h) auto

lemma addAll_within:
  "length (messages h) + length cs \<le> 50 \<Longrightarrow>
   messages (addAll (callsOf cs) h) = messages h @ storedAll cs"
proof (induction cs arbitrary: h)
  case Nil
  then show ?case by (simp add: callsOf_def storedAll_def)
next
  case (Cons c cs)
  obtain m newId where c: "c = (m, newId)" by (cases c)
  let ?h' = "snd (add (Some m) newId h)"
  have step: "messages ?h' = messages h @ [stored m newId]"
    using Cons.prems by (simp add: add_within)
  then have "length (messages ?h') + length cs \<le> 50"
    using Cons.prems by simp
  from Cons.IH[OF this] have "messages (addAll (callsOf cs) ?h')
      = (messages h @ [stored m newId]) @ storedAll cs"
    by (simp add: step)
  then show ?case
    by (simp add: c callsOf_def storedAll_def)
qed

lemma addAll_fifty_one:
  assumes "length cs = 51"
  shows "messages (addAll (callsOf cs) emptyHistory) =
     (if msgType (hd (storedAll cs)) = System then [hd (storedAll cs)] else [])
     @ drop 21 (storedAll cs)"
proof -
  from assms have ne: "cs \<noteq> []" by auto
  obtain m newId where l: "last cs = (m, newId)" by (cases "last cs")
  have cs: "cs = butlast cs @ [(m, newId)]"
    using ne l by (metis append_butlast_last_id)
  have "length (butlast cs) = length cs - 1"
    by (rule length_butlast)
  with assms have lb: "length (butlast cs) = 50"
    by linarith
  let ?h = "addAll (callsOf (butlast cs)) emptyHistory"
  have h: "messages ?h = storedAll (butlast cs)"
    using addAll_within[of emptyHistory "butlast cs"] lb by (simp add: emptyHistory_def)
  have len: "length (messages ?h) = 50"
    by (simp only: h storedAll_def length_map lb)
  have all: "storedAll cs = storedAll (butlast cs) @ [stored m newId]"
    by (subst cs) (simp add: storedAll_def)
  have hd: "hd (storedAll cs) = hd (messages ?h)"
    using len by (cases "messages ?h") (simp_all add: all h)
  have "addAll (callsOf cs) emptyHistory = snd (add (Some m) newId ?h)"
    by (subst cs) (simp add: callsOf_def addAll_append)
  then have m1: "messages (addAll (callsOf cs) emptyHistory) =
     (if msgType (hd (messages ?h)) = System then [hd (messages ?h)] else [])
     @ drop (length (messages ?h) + 1 - 30) (messages ?h @ [stored m newId])"
    using add_over[of ?h m newId] len by simp
  have e1: "messages ?h @ [stored m newId] = storedAll cs"
    by (simp only: h all)
  have e2: "length (messages ?h) + 1 - 30 = 21"
    unfolding len by simp
  show ?thesis
    by (simp only: m1 e1 e2 hd)
qed

text \<open>
  Claim C2.  Starting from the empty history, after each call of a sequence of \<open>add\<close>
  calls, with or without a message, the history holds at most 50 messages.  A call that
  finds fewer than 50 messages only appends its message, so that up to 50 calls from the
  empty history leave exactly the messages pushed.  A call that finds 50 messages or more
  leaves the first message of the history, exactly when its type is \<open>System\<close>, followed
  by the last 30 messages, the new one included.  So 51 calls from the empty history
  leave the first message pushed, when it is a \<open>System\<close> message, and the last 30
  messages pushed: 31 messages that start with that same message.
\<close>

theorem history_bound:
  "(\<forall>k. k \<le> length calls \<longrightarrow>
        length (messages (addAll (take k calls) emptyHistory)) \<le> 50)
   \<and> MAX_MESSAGES = 50 \<and> TRUNCATE_TO = 30
   \<and> (length (messages h) < 50 \<longrightarrow>
        messages (snd (add (Some m) newId h)) = messages h @ [stored m newId])
   \<and> (50 \<le> length (messages h) \<longrightarrow>
        messages (snd (add (Some m) newId h)) =
          (if msgType (hd (messages h)) = System then [hd (messages h)] else [])
          @ drop (length (messages h) + 1 - 30) (messages h @ [stored m newId])
        \<and> length (drop (length (messages h) + 1 - 30) (messages h @ [stored m newId])) = 30)
   \<and> (length (messages h) = 50 \<and> msgType (hd (messages h)) = System \<longrightarrow>
        messages (snd (add (Some m) newId h))
          = hd (messages h) # drop 21 (messages h @ [stored m newId])
        \<and> length (messages (snd (add (Some m) newId h))) = 31
        \<and> hd (messages (snd (add (Some m) newId h))) = hd (messages h))
   \<and> (length cs \<le> 50 \<longrightarrow>
        messages (addAll (callsOf cs) emptyHistory) = storedAll cs)
   \<and> (length cs = 51 \<longrightarrow>
        messages (addAll (callsOf cs) emptyHistory) =
          (if msgType (hd (storedAll cs)) = System then [hd (storedAll cs)] else [])
          @ drop 21 (storedAll cs))
   \<and> (length cs = 51 \<and> msgType (hd (storedAll cs)) = System \<longrightarrow>
        length (messages (addAll (callsOf cs) emptyHistory)) = 31
        \<and> hd (messages (addAll (callsOf cs) emptyHistory)) = hd (storedAll cs))"
proof (intro conjI impI allI)
  fix k
  show "length (messages (addAll (take k calls) emptyHistory)) \<le> 50"
    using addAll_bound[of emptyHistory "take k calls"]
    by (simp add: emptyHistory_def MAX_MESSAGES_def)
next
  show "MAX_MESSAGES = 50" by (simp add: MAX_MESSAGES_def)
  show "TRUNCATE_TO = 30" by (simp add: TRUNCATE_TO_def)
next
  assume "length (messages h) < 50"
  then show "messages (snd (add (Some m) newId h)) = messages h @ [stored m newId]"
    by (rule add_within)
next
  assume a: "50 \<le> length (messages h)"
  show "messages (snd (add (Some m) newId h)) =
      (if msgType (hd (messages h)) = System then [hd (messages h)] else [])
      @ drop (length (messages h) + 1 - 30) (messages h @ [stored m newId])"
    by (rule add_over[OF a])
  show "length (drop (length (messages h) + 1 - 30) (messages h @ [stored m newId])) = 30"
    using a by simp
next
  assume a: "length (messages h) = 50 \<and> msgType (hd (messages h)) = System"
  then have r: "messages (snd (add (Some m) newId h))
      = hd (messages h) # drop 21 (messages h @ [stored m newId])"
    using add_over[of h m newId] by simp
  show "messages (snd (add (Some m) newId h))
      = hd (messages h) # drop 21 (messages h @ [stored m newId])"
    by (rule r)
  show "length (messages (snd (add (Some m) newId h))) = 31"
    unfolding r using a by simp
  show "hd (messages (snd (add (Some m) newId h))) = hd (messages h)"
    unfolding r by simp
next
  assume "length cs \<le> 50"
  then show "messages (addAll (callsOf cs) emptyHistory) = storedAll cs"
    using addAll_within[of emptyHistory cs] by (simp add: emptyHistory_def)
next
  assume "length cs = 51"
  then show "messages (addAll (callsOf cs) emptyHistory) =
      (if msgType (hd (storedAll cs)) = System then [hd (storedAll cs)] else [])
      @ drop 21 (storedAll cs)"
    by (rule addAll_fifty_one)
next
  assume a: "length cs = 51 \<and> msgType (hd (storedAll cs)) = System"
  then have r: "messages (addAll (callsOf cs) emptyHistory)
      = hd (storedAll cs) # drop 21 (storedAll cs)"
    using addAll_fifty_one[of cs] by simp
  show "length (messages (addAll (callsOf cs) emptyHistory)) = 31"
    unfolding r using a by (simp add: storedAll_def)
  show "hd (messages (addAll (callsOf cs) emptyHistory)) = hd (storedAll cs)"
    unfolding r by simp
qed

text \<open>
  In the sample session the first fifty calls leave the fifty messages pushed, the
  system prompt first; the 51st call leaves the system prompt and the turns 21 to 50,
  which are 31 messages.  A call without a message among three calls leaves two
  messages.
\<close>

theorem history_bound_witness:
  "2 \<le> length sampleCalls
   \<and> length (messages (addAll (take 2 sampleCalls) emptyHistory)) \<le> 50
   \<and> length (take 50 sampleSession) \<le> 50
   \<and> messages (addAll (callsOf (take 50 sampleSession)) emptyHistory)
       = storedAll (take 50 sampleSession)
   \<and> length (messages (addAll (callsOf (take 50 sampleSession)) emptyHistory)) = 50
   \<and> msgType (hd (messages (addAll (callsOf (take 50 sampleSession)) emptyHistory))) = System
   \<and> length (messages (snd (add (Some (fst (userTurn 50))) (snd (userTurn 50))
        (addAll (callsOf (take 50 sampleSession)) emptyHistory)))) = 31
   \<and> length (messages (emptyHistory :: string ChatHistory)) < 50
   \<and> messages (snd (add (Some (fst (userTurn 1))) (snd (userTurn 1)) emptyHistory))
       = [stored (fst (userTurn 1)) (snd (userTurn 1))]
   \<and> length sampleSession = 51
   \<and> msgType (hd (storedAll sampleSession)) = System
   \<and> messages (addAll (callsOf sampleSession) emptyHistory)
       = \<lparr>snowflakeId = ''s'', msgType = System, msgContent = ''prompt'',
          metadata = Map.empty\<rparr>
         # map (\<lambda>k. \<lparr>snowflakeId = replicate k (CHR ''i''), msgType = User,
                       msgContent = ''turn'', metadata = Map.empty\<rparr>) [21..<51]
   \<and> length (messages (addAll (callsOf sampleSession) emptyHistory)) = 31"
proof -
  let ?h50 = "addAll (callsOf (take 50 sampleSession)) emptyHistory"
  note T = history_bound[where calls = sampleCalls and cs = "take 50 sampleSession"
      and h = ?h50 and m = "fst (userTurn 50)" and newId = "snd (userTurn 50)"]
  note E = history_bound[where h = "emptyHistory :: string ChatHistory"
      and m = "fst (userTurn 1)" and newId = "snd (userTurn 1)"]
  note S = history_bound[where cs = sampleSession]
  have two: "2 \<le> length sampleCalls"
    by (simp add: sampleCalls_def)
  have a: "length (messages (addAll (take 2 sampleCalls) emptyHistory)) \<le> 50"
    using T[THEN conjunct1, rule_format, OF two] .
  have l50: "length (take 50 sampleSession) \<le> 50"
    by simp
  have m50: "messages ?h50 = storedAll (take 50 sampleSession)"
    using T[THEN conjunct2, THEN conjunct2, THEN conjunct2, THEN conjunct2, THEN conjunct2,
        THEN conjunct2, THEN conjunct1, rule_format, OF l50] .
  have len50: "length (messages ?h50) = 50"
    unfolding m50 by (simp add: storedAll_def sampleSession_def)
  have sys50: "msgType (hd (messages ?h50)) = System"
    unfolding m50 by (simp add: storedAll_def sampleSession_def stored_def)
  have b: "length (messages (snd (add (Some (fst (userTurn 50))) (snd (userTurn 50)) ?h50)))
      = 31"
    using T[THEN conjunct2, THEN conjunct2, THEN conjunct2, THEN conjunct2, THEN conjunct2,
        THEN conjunct1, rule_format, OF conjI, OF len50 sys50, THEN conjunct2,
        THEN conjunct1] .
  have e0: "length (messages (emptyHistory :: string ChatHistory)) < 50"
    by (simp add: emptyHistory_def)
  have e1: "messages (snd (add (Some (fst (userTurn 1))) (snd (userTurn 1)) emptyHistory))
      = [stored (fst (userTurn 1)) (snd (userTurn 1))]"
    using E[THEN conjunct2, THEN conjunct2, THEN conjunct2, THEN conjunct1, rule_format, OF e0]
    by (simp add: emptyHistory_def)
  have l51: "length sampleSession = 51"
    by (simp add: sampleSession_def)
  have sys: "msgType (hd (storedAll sampleSession)) = System"
    by (simp add: storedAll_def sampleSession_def stored_def)
  have "messages (addAll (callsOf sampleSession) emptyHistory) =
      (if msgType (hd (storedAll sampleSession)) = System
       then [hd (storedAll sampleSession)] else [])
      @ drop 21 (storedAll sampleSession)"
    using S[THEN conjunct2, THEN conjunct2, THEN conjunct2, THEN conjunct2, THEN conjunct2,
        THEN conjunct2, THEN conjunct2, THEN conjunct1, rule_format, OF l51] .
  then have c: "messages (addAll (callsOf sampleSession) emptyHistory)
      = \<lparr>snowflakeId = ''s'', msgType = System, msgContent = ''prompt'',
          metadata = Map.empty\<rparr>
         # map (\<lambda>k. \<lparr>snowflakeId = replicate k (CHR ''i''), msgType = User,
                       msgContent = ''turn'', metadata = Map.empty\<rparr>) [21..<51]"
    by (simp add: sys)
      (simp add: storedAll_def sampleSession_def stored_def userTurn_def drop_map)
  have d: "length (messages (addAll (callsOf sampleSession) emptyHistory)) = 31"
    using S[THEN conjunct2, THEN conjunct2, THEN conjunct2, THEN conjunct2, THEN conjunct2,
        THEN conjunct2, THEN conjunct2, THEN conjunct2, rule_format, OF conjI, OF l51 sys,
        THEN conjunct1] .
  show ?thesis
    by (intro conjI two a l50 m50 len50 sys50 b e0 e1 l51 sys c d)
qed

text \<open>
  Claim C10.  \<open>add\<close> returns the generated identifier and stores it in the message,
  whatever identifier the caller supplied; the message is the last one of the history
  after the call, with the caller's content; a missing type is stored as \<open>User\<close> and a
  missing metadata as the empty mapping, a given type or metadata is kept.  With no
  message, \<open>add\<close> throws and the history is the one before the call.
\<close>

theorem add_assigns:
  "fst (add (Some m) newId h) = Inr newId
   \<and> messages (snd (add (Some m) newId h)) \<noteq> []
   \<and> snowflakeId (last (messages (snd (add (Some m) newId h)))) = newId
   \<and> msgContent (last (messages (snd (add (Some m) newId h)))) = given_content m
   \<and> (given_type m = None \<longrightarrow>
        msgType (last (messages (snd (add (Some m) newId h)))) = User)
   \<and> (\<forall>t. given_type m = Some t \<longrightarrow>
        msgType (last (messages (snd (add (Some m) newId h)))) = t)
   \<and> (given_metadata m = None \<longrightarrow>
        metadata (last (messages (snd (add (Some m) newId h)))) = Map.empty)
   \<and> (\<forall>md. given_metadata m = Some md \<longrightarrow>
        metadata (last (messages (snd (add (Some m) newId h)))) = md)
   \<and> add None newId h = (Inl Error, h)"
proof -
  let ?h' = "snd (add (Some m) newId h)"
  have pushed: "messages ?h' = truncateIfNeeded (messages h @ [stored m newId])"
    by (simp add: add_def)
  have kept: "messages ?h' \<noteq> []" and newest: "last (messages ?h') = stored m newId"
    using truncateIfNeeded_snoc[of "messages h" "stored m newId"]
    by (simp_all add: pushed)
  have returned: "fst (add (Some m) newId h) = Inr newId"
    and thrown: "add None newId h = (Inl Error, h)"
    by (simp_all add: add_def)
  show ?thesis
    unfolding newest using kept returned thrown by (simp add: stored_def)
qed

text \<open>
  A message with an identifier of the caller's and neither type nor metadata, and one
  with both.
\<close>

theorem add_assigns_witness:
  "given_snowflakeId newMessage = Some ''mine''
   \<and> given_type newMessage = None
   \<and> given_metadata newMessage = None
   \<and> fst (add (Some newMessage) ''fresh'' fullHistory) = Inr ''fresh''
   \<and> last (messages (snd (add (Some newMessage) ''fresh'' fullHistory)))
       = \<lparr>snowflakeId = ''fresh'', msgType = User, msgContent = ''new'',
          metadata = Map.empty\<rparr>
   \<and> given_type answerMessage = Some Assistant
   \<and> given_metadata answerMessage = Some [''k'' \<mapsto> ''v'']
   \<and> last (messages (snd (add (Some answerMessage) ''fresh'' emptyHistory)))
       = \<lparr>snowflakeId = ''fresh'', msgType = Assistant, msgContent = ''answer'',
          metadata = [''k'' \<mapsto> ''v'']\<rparr>
   \<and> add None ''fresh'' fullHistory = (Inl Error, fullHistory)"
proof -
  note N = add_assigns[of newMessage "''fresh''" fullHistory]
  note A = add_assigns[of answerMessage "''fresh''" emptyHistory]
  have n: "given_snowflakeId newMessage = Some ''mine''" "given_type newMessage = None"
    "given_metadata newMessage = None"
    by (simp_all add: newMessage_def)
  have a: "given_type answerMessage = Some Assistant"
    "given_metadata answerMessage = Some [''k'' \<mapsto> ''v'']"
    by (simp_all add: answerMessage_def)
  have "given_content newMessage = ''new''" "given_content answerMessage = ''answer''"
    by (simp_all add: newMessage_def answerMessage_def)
  with N A n a show ?thesis
    by (simp add: ChatMessage.equality)
qed

section \<open>Properties of the bracket command lexer\<close>

lemma tokenize_Nil: "tokenize [] = []"
  by (simp add: tokenize_def tokenizeLoop.simps)

lemma hasCommandChanged_iff: "hasCommandChanged a b \<longleftrightarrow> a \<noteq> b"
proof -
  have "a = b \<longleftrightarrow> cmdType a = cmdType b \<and> args a = args b"
    by (cases a; cases b) simp
  moreover have "args a = args b \<longleftrightarrow>
      length (args a) = length (args b) \<and> (\<forall>i<length (args a). args a ! i = args b ! i)"
    by (rule list_eq_iff_nth_eq)
  ultimately show ?thesis
    by (auto simp: hasCommandChanged_def list_ex_iff)
qed

lemma drop_as_nths: "drop k xs = map ((!) xs) [k..<length xs]"
proof -
  have "drop k xs = drop k (map ((!) xs) [0..<length xs])" by (simp add: map_nth)
  also have "\<dots> = map ((!) xs) [k..<length xs]" by (simp add: drop_map)
  finally show ?thesis .
qed

lemma buffer_lexer_append: "buffer (snd (lexer_append ch st)) = buffer st @ ch"
  by (simp add: lexer_append_def Let_def)

lemma commands_lexer_append: "commands (snd (lexer_append ch st)) = tokenize (buffer st @ ch)"
  by (simp add: lexer_append_def Let_def)

lemma buffer_appendAll: "buffer (appendAll chs st) = buffer st @ concat chs"
  by (induction chs arbitrary: st) (simp_all add: buffer_lexer_append)

lemma commands_appendAll:
  "commands st = tokenize (buffer st) \<Longrightarrow>
   commands (appendAll chs st) = tokenize (buffer st @ concat chs)"
  by (induction chs arbitrary: st)
    (simp_all add: buffer_lexer_append commands_lexer_append)

lemma commands_appendAll_initial:
  "commands (appendAll chs initialLexer) = tokenize (concat chs)"
  using commands_appendAll[of initialLexer chs] by (simp add: initialLexer_def tokenize_Nil)

text \<open>The positions that one \<open>append\<close> reports, new ones first.\<close>

lemma lexer_append_positions:
  "fst (lexer_append ch st) =
     map ((!) (tokenize (buffer st @ ch)))
       ([length (commands st)..<length (tokenize (buffer st @ ch))]
        @ filter (\<lambda>i. commands st ! i \<noteq> tokenize (buffer st @ ch) ! i)
            [0..<min (length (commands st)) (length (tokenize (buffer st @ ch)))])"
  by (simp add: lexer_append_def Let_def hasCommandChanged_iff drop_as_nths)

text \<open>
  Claim C4.  After the chunks \<open>chunks\<close> have been appended to a new lexer, the command
  list is the tokenization of their concatenation, and so is the list after one more
  \<open>append\<close>, for the whole accumulated buffer.  That \<open>append\<close> returns the commands of
  the new list at a duplicate-free list of positions: exactly the positions of the new
  list that are beyond the previous list or hold a command that differs from the
  previous one at that position.  So a command that is unchanged at its position is not
  reported, every reported command is one of the tokenization of the whole buffer, and
  every position beyond the previous list is reported.
\<close>

theorem append_reports_changes:
  "commands (appendAll chunks initialLexer) = tokenize (concat chunks)
   \<and> commands (snd (lexer_append ch (appendAll chunks initialLexer)))
       = tokenize (concat chunks @ ch)
   \<and> (\<exists>positions.
        fst (lexer_append ch (appendAll chunks initialLexer))
          = map ((!) (tokenize (concat chunks @ ch))) positions
        \<and> distinct positions
        \<and> set positions =
            {i. i < length (tokenize (concat chunks @ ch))
                \<and> (i < length (tokenize (concat chunks))
                     \<longrightarrow> tokenize (concat chunks) ! i \<noteq> tokenize (concat chunks @ ch) ! i)})"
proof (intro conjI)
  let ?st = "appendAll chunks initialLexer"
  let ?prev = "tokenize (concat chunks)"
  let ?cmds = "tokenize (concat chunks @ ch)"
  have b: "buffer ?st = concat chunks"
    by (simp add: buffer_appendAll initialLexer_def)
  show c: "commands ?st = ?prev"
    by (rule commands_appendAll_initial)
  show "commands (snd (lexer_append ch ?st)) = ?cmds"
    by (simp add: commands_lexer_append b)
  let ?positions = "[length ?prev..<length ?cmds]
     @ filter (\<lambda>i. ?prev ! i \<noteq> ?cmds ! i) [0..<min (length ?prev) (length ?cmds)]"
  have "fst (lexer_append ch ?st) = map ((!) ?cmds) ?positions"
    using lexer_append_positions[of ch ?st] by (simp add: b c)
  moreover have "distinct ?positions"
    by auto
  moreover have "set ?positions =
      {i. i < length ?cmds \<and> (i < length ?prev \<longrightarrow> ?prev ! i \<noteq> ?cmds ! i)}"
    by auto
  ultimately show "\<exists>positions.
      fst (lexer_append ch ?st) = map ((!) ?cmds) positions
      \<and> distinct positions
      \<and> set positions =
          {i. i < length ?cmds \<and> (i < length ?prev \<longrightarrow> ?prev ! i \<noteq> ?cmds ! i)}"
    by blast
qed

text \<open>
  The buffer \<open>A["x"] B["y\<close> tokenizes to the single command \<open>B\<close> with argument \<open>y\<close>;
  appending \<open>"]\<close> gives the commands \<open>A\<close> and \<open>B\<close>.  Position 0 has changed and
  position 1 is new, and both commands are reported.
\<close>

theorem append_reports_changes_witness:
  \<open>tokenize (concat [''A["x"] B["y'']) = [\<lparr>cmdType = ''B'', args = [''y'']\<rparr>]
   \<and> tokenize (concat [''A["x"] B["y''] @ ''"]'')
       = [\<lparr>cmdType = ''A'', args = [''x'']\<rparr>, \<lparr>cmdType = ''B'', args = [''y'']\<rparr>]
   \<and> set (fst (lexer_append ''"]'' (appendAll [''A["x"] B["y''] initialLexer)))
       = {\<lparr>cmdType = ''A'', args = [''x'']\<rparr>, \<lparr>cmdType = ''B'', args = [''y'']\<rparr>}
   \<and> length (fst (lexer_append ''"]'' (appendAll [''A["x"] B["y''] initialLexer))) = 2\<close>
proof -
  let ?chunks = \<open>[''A["x"] B["y'']\<close>
  let ?ch = \<open>''"]''\<close>
  let ?A = "\<lparr>cmdType = ''A'', args = [''x'']\<rparr>"
  let ?B = "\<lparr>cmdType = ''B'', args = [''y'']\<rparr>"
  have p: "tokenize (concat ?chunks) = [?B]"
    by code_simp
  have c: "tokenize (concat ?chunks @ ?ch) = [?A, ?B]"
    by code_simp
  from append_reports_changes[of ?chunks ?ch]
  obtain positions where
    r: "fst (lexer_append ?ch (appendAll ?chunks initialLexer))
        = map ((!) (tokenize (concat ?chunks @ ?ch))) positions"
    and d: "distinct positions"
    and s: "set positions =
        {i. i < length (tokenize (concat ?chunks @ ?ch))
            \<and> (i < length (tokenize (concat ?chunks))
                 \<longrightarrow> tokenize (concat ?chunks) ! i \<noteq> tokenize (concat ?chunks @ ?ch) ! i)}"
    by blast
  have s': "set positions = {0, 1}"
    unfolding s p c by (auto simp: less_Suc_eq)
  have "set (fst (lexer_append ?ch (appendAll ?chunks initialLexer))) = {?A, ?B}"
    unfolding r c by (simp add: s')
  moreover have "length positions = 2"
    using distinct_card[OF d] s' by simp
  then have "length (fst (lexer_append ?ch (appendAll ?chunks initialLexer))) = 2"
    unfolding r by simp
  ultimately show ?thesis
    using p c by blast
qed

lemma tokenizeLoop_loopState:
  "tokenizeLoop [] input = tokenizeLoop (fst (loopState n input)) (snd (loopState n input))"
proof (induction n)
  case 0
  show ?case by simp
next
  case (Suc n)
  obtain cmds rest where s: "loopState n input = (cmds, rest)" by force
  show ?case
  proof (cases "rest = []")
    case True
    with s Suc show ?thesis by simp
  next
    case False
    obtain cmds' rest' where t: "tokenizeStep cmds rest = (cmds', rest')" by force
    have "tokenizeLoop cmds rest = tokenizeLoop cmds' rest'"
      using False t by (subst tokenizeLoop.simps) simp
    with s t False Suc show ?thesis by simp
  qed
qed

text \<open>
  Claim C6.  Let a pass of the loop of \<open>tokenize\<close> start with the commands \<open>cmds\<close> and
  the non-empty rest \<open>rest\<close> of the input, read a command type, find the opening bracket
  and read the arguments \<open>as\<close> up to the end of the input without meeting a closing
  bracket.  Then the result of \<open>tokenize\<close> has as many commands as \<open>cmds\<close>: no command is
  created, and the type and the arguments read in this pass are those of the last
  command when \<open>cmds\<close> has one, the commands before it being kept.
\<close>

theorem unclosed_overwrites_last:
  "loopState n input = (cmds, rest) \<and> rest \<noteq> []
   \<and> readUntil [CHR 0x5B] (dropWhile (\<lambda>c. \<not> isUppercase c) rest) = (val, in1)
   \<and> peek in1 = ''[''
   \<and> argsLoop [] (tl in1) = (as, in3)
   \<and> peek in3 \<noteq> '']''
   \<longrightarrow> in3 = []
       \<and> length (tokenize input) = length cmds
       \<and> tokenize input =
           (if cmds = [] then []
            else butlast cmds @ [\<lparr>cmdType = trim val, args = as\<rparr>])"
proof (intro impI)
  assume a: "loopState n input = (cmds, rest) \<and> rest \<noteq> []
   \<and> readUntil [CHR 0x5B] (dropWhile (\<lambda>c. \<not> isUppercase c) rest) = (val, in1)
   \<and> peek in1 = ''[''
   \<and> argsLoop [] (tl in1) = (as, in3)
   \<and> peek in3 \<noteq> '']''"
  let ?cmds' = "if length cmds > 0
    then butlast cmds @ [\<lparr>cmdType = trim val, args = as\<rparr>] else cmds"
  have e: "in3 = []"
    using argsLoop_stop[of "[]" "tl in1"] a by simp
  have step: "tokenizeStep cmds rest = (?cmds', in3)"
    using a by (simp add: tokenizeStep_def Let_def)
  have "tokenize input = tokenizeLoop cmds rest"
    using tokenizeLoop_loopState[of input n] a by (simp add: tokenize_def)
  also have "\<dots> = tokenizeLoop ?cmds' in3"
    using a step by (subst tokenizeLoop.simps) simp
  also have "\<dots> = ?cmds'"
    unfolding e by (subst tokenizeLoop.simps) simp
  finally have t: "tokenize input = ?cmds'" .
  show "in3 = []
       \<and> length (tokenize input) = length cmds
       \<and> tokenize input =
           (if cmds = [] then []
            else butlast cmds @ [\<lparr>cmdType = trim val, args = as\<rparr>])"
    using e t by auto
qed

text \<open>
  In the input \<open>A["x"] B["y\<close> the first pass pushes the command \<open>A\<close>; the second pass
  reads the type \<open>B\<close> and the argument \<open>y\<close> and reaches the end of the input; the
  result is the single command \<open>B\<close> with argument \<open>y\<close>.
\<close>

theorem unclosed_overwrites_last_witness:
  \<open>loopState 1 ''A["x"] B["y'' = ([\<lparr>cmdType = ''A'', args = [''x'']\<rparr>], '' B["y'')
   \<and> '' B["y'' \<noteq> []
   \<and> readUntil [CHR 0x5B] (dropWhile (\<lambda>c. \<not> isUppercase c) '' B["y'') = (''B'', ''["y'')
   \<and> peek ''["y'' = ''[''
   \<and> argsLoop [] (tl ''["y'') = ([''y''], [])
   \<and> peek [] \<noteq> '']''
   \<and> length (tokenize ''A["x"] B["y'') = length [\<lparr>cmdType = ''A'', args = [''x'']\<rparr>]
   \<and> tokenize ''A["x"] B["y'' = [\<lparr>cmdType = ''B'', args = [''y'']\<rparr>]\<close>
proof -
  have h1: \<open>loopState 1 ''A["x"] B["y'' = ([\<lparr>cmdType = ''A'', args = [''x'']\<rparr>], '' B["y'')\<close>
    by code_simp
  have h2: \<open>'' B["y'' \<noteq> []\<close>
    by simp
  have h3: \<open>readUntil [CHR 0x5B] (dropWhile (\<lambda>c. \<not> isUppercase c) '' B["y'')
      = (''B'', ''["y'')\<close>
    by code_simp
  have h4: \<open>peek ''["y'' = ''[''\<close>
    by (simp add: peek_def)
  have h5: \<open>argsLoop [] (tl ''["y'') = ([''y''], [])\<close>
    by code_simp
  have h6: "peek [] \<noteq> '']''"
    by (simp add: peek_def)
  have t: "trim ''B'' = ''B''"
    by code_simp
  from unclosed_overwrites_last[rule_format, OF conjI, OF h1 conjI, OF h2 conjI,
      OF h3 conjI, OF h4 conjI, OF h5 h6]
  have \<open>length (tokenize ''A["x"] B["y'') = length [\<lparr>cmdType = ''A'', args = [''x'']\<rparr>]\<close>
    and \<open>tokenize ''A["x"] B["y'' = [\<lparr>cmdType = ''B'', args = [''y'']\<rparr>]\<close>
    by (simp_all add: t)
  with h1 h2 h3 h4 h5 h6 show ?thesis
    by blast
qed

section \<open>Properties of the debounced stream callbacks\<close>

lemma streamBuffer_onTagEndCallback:
  "streamBuffer (onTagEndCallback hs tagName full st) = None"
  by (simp add: onTagEndCallback_def flushBuffer_def Let_def)

text \<open>
  The tag callbacks are made at once and none is dropped: what a tag event appends to
  the calls ends with its own call.
\<close>

lemma tag_callbacks_immediate:
  "handlerCalls (onTagOpenCallback allHandlers tagName attributes st)
     = handlerCalls st @ [OnTagOpen tagName attributes]"
  "\<exists>flushed. handlerCalls (onTagEndCallback allHandlers tagName full st)
     = handlerCalls st @ flushed @ [OnTagEnd tagName full]"
  by (simp_all add: onTagOpenCallback_def onTagEndCallback_def flushBuffer_def
      allHandlers_def Let_def)

text \<open>
  Claim C3 does not hold of the code.  A content update that is delivered at once
  leaves an older buffered update in \<open>streamBuffer\<close>, and the next tag end flushes it.
  Here the update \<open>a\<close> is delivered at the time 1700000000000 ms, \<open>ab\<close> is buffered
  5 ms later, \<open>abc\<close> is delivered 20 ms after \<open>a\<close>, and the tag end 1 ms later delivers
  the stale \<open>ab\<close> after \<open>abc\<close>.
\<close>

theorem stale_update_after_newer:
  "chatStreamXml allHandlers
     [(1700000000000, Content ''p'' ''a''), (1700000000005, Content ''p'' ''ab''),
      (1700000000020, Content ''p'' ''abc''), (1700000000021, TagEnd ''p'' ''abc'')]
   = [OnStream ''p'' ''a'', OnStream ''p'' ''abc'', OnStream ''p'' ''ab'',
      OnTagEnd ''p'' ''abc'']"
  by (simp add: chatStreamXml_def allHandlers_def initialStreamState_def onContent_def
      onTagEndCallback_def flushBuffer_def UPDATE_INTERVAL_def Let_def)

section \<open>Properties of the event-stream transport\<close>

lemma retry_delay_value:
  "calculateRetryDelay n random = min 10000 (1000 * 2 ^ n) + random * 500"
  by (simp add: calculateRetryDelay_def RETRY_CONFIG_def Let_def min.commute)

lemma onerror_fatal:
  "errToString err = ''FatalError'' \<Longrightarrow>
   onerror err random st =
     (Inl err, st\<lparr>toasts := toasts st
        @ [''AI request failed. Please check your API key and try again.'']\<rparr>)"
  by (simp add: onerror_def)

lemma onerror_retry:
  "errToString err \<noteq> ''FatalError'' \<Longrightarrow> 0 < tries st \<Longrightarrow>
   onerror err random st = retryLater random st"
  by (simp add: onerror_def)

lemma onerror_exhausted:
  "errToString err \<noteq> ''FatalError'' \<Longrightarrow> tries st = 0 \<Longrightarrow>
   currentAttempt (snd (onerror err random st)) = currentAttempt st
   \<and> tries (snd (onerror err random st)) = 0
   \<and> (\<exists>e. fst (onerror err random st) = Inl e)"
  by (simp add: onerror_def)

lemma currentAttempt_onmessage:
  "currentAttempt (onmessage env ev st) = currentAttempt st"
  by (simp add: onmessage_def parsingError_def split: option.splits sum.splits)

text \<open>
  Claim C8.  With \<open>random\<close> at least 0 and less than 1, the delay computed for the
  attempt number \<open>n\<close> is the lesser of \<open>maxDelayMs\<close> and
  \<open>initialDelayMs * backoffMultiplier ^ n\<close>, that is of 10000 and \<open>1000 * 2 ^ n\<close>, plus
  a jitter \<open>random * jitterMs\<close> that is at least 0 and less than \<open>jitterMs\<close>.  \<open>onerror\<close>
  leaves the attempt counter as it is in the fatal branch, where it throws; in the
  other two branches it adds one to the counter exactly when it returns a delay, which
  is the delay computed for the new value of the counter; \<open>onmessage\<close> never changes the
  counter.  The jitter is the random value scaled by \<open>jitterMs\<close>: it lies between \<open>a\<close>
  and \<open>b\<close> exactly when the random value lies between \<open>a / jitterMs\<close> and
  \<open>b / jitterMs\<close>, so that a uniform random value gives a uniform jitter.
\<close>

theorem retry_delay_and_counter:
  "(0 \<le> random \<and> random < 1 \<longrightarrow>
      calculateRetryDelay n random
        = min (maxDelayMs RETRY_CONFIG)
              (initialDelayMs RETRY_CONFIG * backoffMultiplier RETRY_CONFIG ^ n)
          + random * jitterMs RETRY_CONFIG
      \<and> calculateRetryDelay n random = min 10000 (1000 * 2 ^ n) + random * 500
      \<and> 0 \<le> random * jitterMs RETRY_CONFIG
      \<and> random * jitterMs RETRY_CONFIG < jitterMs RETRY_CONFIG)
   \<and> (errToString err = ''FatalError'' \<longrightarrow>
        currentAttempt (snd (onerror err random st)) = currentAttempt st
        \<and> fst (onerror err random st) = Inl err)
   \<and> (errToString err \<noteq> ''FatalError'' \<and> 0 < tries st \<longrightarrow>
        currentAttempt (snd (onerror err random st)) = currentAttempt st + 1
        \<and> fst (onerror err random st)
            = Inr (calculateRetryDelay (currentAttempt st + 1) random))
   \<and> (errToString err \<noteq> ''FatalError'' \<and> tries st = 0 \<longrightarrow>
        currentAttempt (snd (onerror err random st)) = currentAttempt st
        \<and> (\<exists>e. fst (onerror err random st) = Inl e))
   \<and> currentAttempt (onmessage env ev st) = currentAttempt st
   \<and> ((a \<le> random * jitterMs RETRY_CONFIG \<and> random * jitterMs RETRY_CONFIG < b)
        = (a / jitterMs RETRY_CONFIG \<le> random \<and> random < b / jitterMs RETRY_CONFIG))"
proof (intro conjI impI)
  assume r: "0 \<le> random \<and> random < 1"
  show "calculateRetryDelay n random
        = min (maxDelayMs RETRY_CONFIG)
              (initialDelayMs RETRY_CONFIG * backoffMultiplier RETRY_CONFIG ^ n)
          + random * jitterMs RETRY_CONFIG"
    by (simp add: calculateRetryDelay_def Let_def min.commute)
  show "calculateRetryDelay n random = min 10000 (1000 * 2 ^ n) + random * 500"
    by (rule retry_delay_value)
  show "0 \<le> random * jitterMs RETRY_CONFIG"
    using r by (simp add: RETRY_CONFIG_def)
  show "random * jitterMs RETRY_CONFIG < jitterMs RETRY_CONFIG"
    using r by (simp add: RETRY_CONFIG_def)
next
  assume f: "errToString err = ''FatalError''"
  show "currentAttempt (snd (onerror err random st)) = currentAttempt st"
    by (simp add: onerror_fatal[OF f])
  show "fst (onerror err random st) = Inl err"
    by (simp add: onerror_fatal[OF f])
next
  assume a: "errToString err \<noteq> ''FatalError'' \<and> 0 < tries st"
  then have e: "onerror err random st = retryLater random st"
    by (simp add: onerror_retry)
  show "currentAttempt (snd (onerror err random st)) = currentAttempt st + 1"
    by (simp add: e retryLater_def)
  show "fst (onerror err random st) = Inr (calculateRetryDelay (currentAttempt st + 1) random)"
    by (simp add: e retryLater_def)
next
  assume a: "errToString err \<noteq> ''FatalError'' \<and> tries st = 0"
  then show "currentAttempt (snd (onerror err random st)) = currentAttempt st"
    using onerror_exhausted[of err st random] by simp
  from a show "\<exists>e. fst (onerror err random st) = Inl e"
    using onerror_exhausted[of err st random] by simp
next
  show "currentAttempt (onmessage env ev st) = currentAttempt st"
    by (rule currentAttempt_onmessage)
next
  have "(0::rat) < 500" by simp
  then show "(a \<le> random * jitterMs RETRY_CONFIG \<and> random * jitterMs RETRY_CONFIG < b)
      = (a / jitterMs RETRY_CONFIG \<le> random \<and> random < b / jitterMs RETRY_CONFIG)"
    by (simp add: RETRY_CONFIG_def pos_divide_le_eq pos_less_divide_eq)
qed

text \<open>
  With a jitter of one half: the first retry waits 2250 ms and the fourth 10250 ms; a
  fatal error leaves the counter at 0, a retriable one and a failed connection set it
  to 1, and a retriable one with no tries left leaves it.
\<close>

theorem retry_delay_and_counter_witness:
  "(0::rat) \<le> 1 / 2 \<and> (1::rat) / 2 < 1
   \<and> calculateRetryDelay 1 (1 / 2) = 2250
   \<and> calculateRetryDelay 4 (1 / 2) = 10250
   \<and> errToString (Thrown ''FatalError'') = ''FatalError''
   \<and> currentAttempt (snd (onerror (Thrown ''FatalError'') (1 / 2) initialChatState)) = 0
   \<and> errToString (Thrown ''RetriableError'') \<noteq> ''FatalError''
   \<and> 0 < tries initialChatState
   \<and> currentAttempt (snd (onerror (Thrown ''RetriableError'') (1 / 2) initialChatState)) = 1
   \<and> fst (onerror (Thrown ''RetriableError'') (1 / 2) initialChatState) = Inr 2250
   \<and> currentAttempt (snd (onerror TypeError (1 / 2) initialChatState)) = 1
   \<and> tries (initialChatState\<lparr>tries := 0\<rparr>) = 0
   \<and> currentAttempt (snd (onerror (Thrown ''RetriableError'') (1 / 2)
        (initialChatState\<lparr>tries := 0\<rparr>))) = 0"
proof -
  have h: "(0::rat) \<le> 1 / 2 \<and> (1::rat) / 2 < 1"
    by simp
  have f: "errToString (Thrown ''FatalError'') = ''FatalError''"
    by simp
  have r: "errToString (Thrown ''RetriableError'') \<noteq> ''FatalError'' \<and> 0 < tries initialChatState"
    by (simp add: initialChatState_def RETRY_CONFIG_def)
  have u: "errToString TypeError \<noteq> ''FatalError'' \<and> 0 < tries initialChatState"
    by (simp add: initialChatState_def RETRY_CONFIG_def)
  have x: "errToString (Thrown ''RetriableError'') \<noteq> ''FatalError''
      \<and> tries (initialChatState\<lparr>tries := 0\<rparr>) = 0"
    by simp
  have c0: "currentAttempt initialChatState = 0"
    by (simp add: initialChatState_def)
  note A = retry_delay_and_counter[of "1 / 2" 1 "Thrown ''FatalError''" initialChatState]
  note B = retry_delay_and_counter[of "1 / 2" 4 "Thrown ''RetriableError''" initialChatState]
  note C = retry_delay_and_counter[of "1 / 2" 1 TypeError initialChatState]
  note D = retry_delay_and_counter[of "1 / 2" 1 "Thrown ''RetriableError''"
      "initialChatState\<lparr>tries := 0\<rparr>"]
  have d1: "calculateRetryDelay 1 (1 / 2) = 2250"
    using A[THEN conjunct1, rule_format, OF h] by simp
  have d4: "calculateRetryDelay 4 (1 / 2) = 10250"
    using B[THEN conjunct1, rule_format, OF h] by simp
  have a: "currentAttempt (snd (onerror (Thrown ''FatalError'') (1 / 2) initialChatState)) = 0"
    using A[THEN conjunct2, THEN conjunct1, rule_format, OF f] c0 by simp
  have b: "currentAttempt (snd (onerror (Thrown ''RetriableError'') (1 / 2) initialChatState)) = 1
      \<and> fst (onerror (Thrown ''RetriableError'') (1 / 2) initialChatState) = Inr 2250"
    using B[THEN conjunct2, THEN conjunct2, THEN conjunct1, rule_format, OF r] c0 d1 by simp
  have c: "currentAttempt (snd (onerror TypeError (1 / 2) initialChatState)) = 1"
    using C[THEN conjunct2, THEN conjunct2, THEN conjunct1, rule_format, OF u] c0 by simp
  have d: "currentAttempt (snd (onerror (Thrown ''RetriableError'') (1 / 2)
        (initialChatState\<lparr>tries := 0\<rparr>))) = 0"
    using D[THEN conjunct2, THEN conjunct2, THEN conjunct2, THEN conjunct1, rule_format, OF x] c0
    by simp
  show ?thesis
    using h d1 d4 f a r b c d by simp
qed

lemma always_retriable_run:
  assumes "\<forall>n. connect (transport n) = Inl (Thrown ''RetriableError'')"
  shows "fst (fetchEventSource env transport random st)
           = Rejected (Thrown (''Apologies, the AI service is currently facing heavy traffic, ''
               @ ''causing delays in processing requests. ''
               @ ''Please be patient and try again later.''))
         \<and> attempts (snd (fetchEventSource env transport random st))
             = attempts st + tries st + 1
         \<and> toasts (snd (fetchEventSource env transport random st))
             = toasts st @ [''AI service is experiencing high traffic. ''
                            @ ''Please try again in a few moments.'']
         \<and> length (delays (snd (fetchEventSource env transport random st)))
             = length (delays st) + tries st"
proof (induction "tries st" arbitrary: st)
  case 0
  then show ?case
    using assms by (subst (1 2 3 4) fetchEventSource.simps) (simp add: onerror_def)
next
  case (Suc k)
  let ?st' = "st\<lparr>attempts := attempts st + 1, tries := k,
                 currentAttempt := currentAttempt st + 1,
                 delays := delays st
                   @ [calculateRetryDelay (currentAttempt st + 1) (random (attempts st))]\<rparr>"
  have t: "tries st = Suc k" using Suc.hyps(2) by simp
  have step: "fetchEventSource env transport random st
      = fetchEventSource env transport random ?st'"
    using assms t by (subst fetchEventSource.simps) (simp add: onerror_def retryLater_def)
  have "k = tries ?st'" by simp
  from Suc.hyps(1)[OF this] show ?case
    unfolding step using t by simp
qed

lemma fatal_run:
  assumes "connect (transport (attempts st)) = Inl (Thrown ''FatalError'')"
  shows "fetchEventSource env transport random st =
     (Rejected (Thrown ''FatalError''),
      st\<lparr>attempts := attempts st + 1,
         toasts := toasts st
           @ [''AI request failed. Please check your API key and try again.'']\<rparr>)"
  using assms by (subst fetchEventSource.simps) (simp add: onerror_def)

lemma attempts_onmessage: "attempts (onmessage env ev st) = attempts st"
  and delays_onmessage: "delays (onmessage env ev st) = delays st"
  by (simp_all add: onmessage_def parsingError_def split: option.splits sum.splits)

lemma attempts_deliver: "attempts (deliver env evs st) = attempts st"
  and delays_deliver: "delays (deliver env evs st) = delays st"
  by (induction evs arbitrary: st) (simp_all add: attempts_onmessage delays_onmessage)

lemma success_run:
  assumes "connect (transport (attempts st)) = Inr evs"
  shows "fst (fetchEventSource env transport random st) = Resolved
     \<and> attempts (snd (fetchEventSource env transport random st)) = attempts st + 1
     \<and> delays (snd (fetchEventSource env transport random st)) = delays st"
  using assms
  by (subst (1 2 3) fetchEventSource.simps)
    (simp add: Let_def onclose_def attempts_deliver delays_deliver)

lemma onopen_fatal:
  "400 \<le> status r \<and> status r < 500 \<and> status r \<noteq> 429 \<Longrightarrow>
   onopen r = Inl (Thrown ''FatalError'')"
  by (simp add: onopen_def ok_def)

text \<open>
  Claim C5.  When every connection attempt fails with a \<open>RetriableError\<close>, the
  operation makes \<open>maxRetries + 1\<close>, that is four, attempts, shows the message that the
  service is busy and is rejected.  When the first attempt fails with a
  \<open>RetriableError\<close> and the second one opens the stream, the operation makes two
  attempts, waits the one delay between them and is resolved.  A response with a status
  from 400 to 499 other than 429 is classified as fatal by \<open>onopen\<close>, and when the first
  attempt fails with a \<open>FatalError\<close> the operation makes that one attempt, waits for
  nothing, shows the message about the API key and is rejected with the same error.
\<close>

theorem retry_ceiling:
  "((\<forall>n. connect (transport n) = Inl (Thrown ''RetriableError'')) \<longrightarrow>
      fst (directChatOpenAi env transport random)
        = Rejected (Thrown (''Apologies, the AI service is currently facing heavy traffic, ''
            @ ''causing delays in processing requests. ''
            @ ''Please be patient and try again later.''))
      \<and> attempts (snd (directChatOpenAi env transport random)) = maxRetries RETRY_CONFIG + 1
      \<and> attempts (snd (directChatOpenAi env transport random)) = 4
      \<and> toasts (snd (directChatOpenAi env transport random))
          = [''AI service is experiencing high traffic. Please try again in a few moments.''])
   \<and> (connect (transport 0) = Inl (Thrown ''RetriableError'')
       \<and> connect (transport 1) = Inr evs \<longrightarrow>
      fst (directChatOpenAi env transport random) = Resolved
      \<and> attempts (snd (directChatOpenAi env transport random)) = 2
      \<and> delays (snd (directChatOpenAi env transport random))
          = [calculateRetryDelay 1 (random 0)])
   \<and> (400 \<le> status r \<and> status r < 500 \<and> status r \<noteq> 429 \<longrightarrow>
      connect (Responded r evs) = Inl (Thrown ''FatalError''))
   \<and> (connect (transport 0) = Inl (Thrown ''FatalError'') \<longrightarrow>
      fst (directChatOpenAi env transport random) = Rejected (Thrown ''FatalError'')
      \<and> attempts (snd (directChatOpenAi env transport random)) = 1
      \<and> delays (snd (directChatOpenAi env transport random)) = []
      \<and> toasts (snd (directChatOpenAi env transport random))
          = [''AI request failed. Please check your API key and try again.''])"
proof (intro conjI impI)
  assume a: "\<forall>n. connect (transport n) = Inl (Thrown ''RetriableError'')"
  note R = always_retriable_run[OF a, of env random initialChatState]
  show "fst (directChatOpenAi env transport random)
        = Rejected (Thrown (''Apologies, the AI service is currently facing heavy traffic, ''
            @ ''causing delays in processing requests. ''
            @ ''Please be patient and try again later.''))"
    using R by (simp add: directChatOpenAi_def)
  show "attempts (snd (directChatOpenAi env transport random)) = maxRetries RETRY_CONFIG + 1"
    using R by (simp add: directChatOpenAi_def initialChatState_def)
  show "attempts (snd (directChatOpenAi env transport random)) = 4"
    using R by (simp add: directChatOpenAi_def initialChatState_def RETRY_CONFIG_def)
  show "toasts (snd (directChatOpenAi env transport random))
      = [''AI service is experiencing high traffic. Please try again in a few moments.'']"
    using R by (simp add: directChatOpenAi_def initialChatState_def)
next
  assume a: "connect (transport 0) = Inl (Thrown ''RetriableError'')
       \<and> connect (transport 1) = Inr evs"
  let ?st' = "initialChatState\<lparr>attempts := 1, tries := 2, currentAttempt := 1,
      delays := [calculateRetryDelay 1 (random 0)]\<rparr>"
  have step: "fetchEventSource env transport random initialChatState
      = fetchEventSource env transport random ?st'"
    using a
    by (subst fetchEventSource.simps)
      (simp add: onerror_def retryLater_def initialChatState_def RETRY_CONFIG_def)
  have "connect (transport (attempts ?st')) = Inr evs"
    using a by simp
  note S = success_run[where transport = transport and st = ?st' and evs = evs
      and env = env and random = random, OF this]
  show "fst (directChatOpenAi env transport random) = Resolved"
    using S by (simp add: directChatOpenAi_def step)
  show "attempts (snd (directChatOpenAi env transport random)) = 2"
    using S by (simp add: directChatOpenAi_def step)
  show "delays (snd (directChatOpenAi env transport random))
      = [calculateRetryDelay 1 (random 0)]"
    using S by (simp add: directChatOpenAi_def step)
next
  assume "400 \<le> status r \<and> status r < 500 \<and> status r \<noteq> 429"
  then show "connect (Responded r evs) = Inl (Thrown ''FatalError'')"
    by (simp add: connect_def onopen_fatal)
next
  assume "connect (transport 0) = Inl (Thrown ''FatalError'')"
  then have a: "connect (transport (attempts initialChatState)) = Inl (Thrown ''FatalError'')"
    by (simp add: initialChatState_def)
  note F = fatal_run[where transport = transport and st = initialChatState
      and env = env and random = random, OF a]
  have F': "directChatOpenAi env transport random =
     (Rejected (Thrown ''FatalError''),
      initialChatState\<lparr>attempts := attempts initialChatState + 1,
         toasts := toasts initialChatState
           @ [''AI request failed. Please check your API key and try again.'']\<rparr>)"
    unfolding directChatOpenAi_def by (rule F)
  show "fst (directChatOpenAi env transport random) = Rejected (Thrown ''FatalError'')"
    unfolding F' by simp
  show "attempts (snd (directChatOpenAi env transport random)) = 1"
    unfolding F' by (simp add: initialChatState_def)
  show "delays (snd (directChatOpenAi env transport random)) = []"
    unfolding F' by (simp add: initialChatState_def)
  show "toasts (snd (directChatOpenAi env transport random))
      = [''AI request failed. Please check your API key and try again.'']"
    unfolding F' by (simp add: initialChatState_def)
qed

text \<open>
  A service that always answers 503 is tried four times.  One that answers 429 and
  then opens the stream is tried twice, with a delay of 2000 ms between the attempts.
  An answer 401 ends the operation at the first attempt.
\<close>

theorem retry_ceiling_witness:
  "connect (busyTransport 7) = Inl (Thrown ''RetriableError'')
   \<and> attempts (snd (directChatOpenAi sampleEnv busyTransport noJitter)) = 4
   \<and> toasts (snd (directChatOpenAi sampleEnv busyTransport noJitter))
       = [''AI service is experiencing high traffic. Please try again in a few moments.'']
   \<and> connect (recoveringTransport 0) = Inl (Thrown ''RetriableError'')
   \<and> connect (recoveringTransport 1) = Inr [helloEvent, \<lparr>data = ''[DONE]''\<rparr>]
   \<and> fst (directChatOpenAi sampleEnv recoveringTransport noJitter) = Resolved
   \<and> attempts (snd (directChatOpenAi sampleEnv recoveringTransport noJitter)) = 2
   \<and> delays (snd (directChatOpenAi sampleEnv recoveringTransport noJitter)) = [2000]
   \<and> 400 \<le> status \<lparr>status = 401, contentType = None\<rparr>
   \<and> connect (unauthorizedTransport 0) = Inl (Thrown ''FatalError'')
   \<and> fst (directChatOpenAi sampleEnv unauthorizedTransport noJitter)
       = Rejected (Thrown ''FatalError'')
   \<and> attempts (snd (directChatOpenAi sampleEnv unauthorizedTransport noJitter)) = 1"
proof -
  have b: "\<forall>n. connect (busyTransport n) = Inl (Thrown ''RetriableError'')"
    by (simp add: busyTransport_def connect_def onopen_def ok_def)
  have r: "connect (recoveringTransport 0) = Inl (Thrown ''RetriableError'')
      \<and> connect (recoveringTransport 1) = Inr [helloEvent, \<lparr>data = ''[DONE]''\<rparr>]"
    by (simp add: recoveringTransport_def connect_def onopen_def ok_def
        EventStreamContentType_def startsWith_def)
  have s: "400 \<le> status \<lparr>status = 401, contentType = None\<rparr>
      \<and> status \<lparr>status = 401, contentType = None\<rparr> < 500
      \<and> status \<lparr>status = 401, contentType = None\<rparr> \<noteq> 429"
    by simp
  note B = retry_ceiling[where transport = busyTransport and env = sampleEnv
      and random = noJitter, THEN conjunct1, THEN mp, OF b]
  note R = retry_ceiling[where transport = recoveringTransport and env = sampleEnv
      and random = noJitter, THEN conjunct2, THEN conjunct1, rule_format, OF r]
  have u: "connect (unauthorizedTransport 0) = Inl (Thrown ''FatalError'')"
    using retry_ceiling[where transport = unauthorizedTransport and env = sampleEnv
        and random = noJitter and evs = "[]"
        and r = "\<lparr>status = 401, contentType = None\<rparr>",
        THEN conjunct2, THEN conjunct2, THEN conjunct1, rule_format, OF s]
    by (simp add: unauthorizedTransport_def)
  note U = retry_ceiling[where transport = unauthorizedTransport and env = sampleEnv
      and random = noJitter, THEN conjunct2, THEN conjunct2, THEN conjunct2, rule_format,
      OF u]
  have d: "calculateRetryDelay 1 (noJitter 0) = 2000"
    by (simp add: retry_delay_value noJitter_def)
  show ?thesis
    using b r B R U u d by simp
qed

lemma deliver_aborted: "aborted st \<Longrightarrow> deliver env evs st = st"
  by (cases evs) simp_all

lemma deliver_append: "deliver env (xs @ ys) st = deliver env ys (deliver env xs st)"
  by (induction xs arbitrary: st) (simp_all add: deliver_aborted)

lemma onmessage_done: "data ev = ''[DONE]'' \<Longrightarrow> onmessage env ev st = st\<lparr>aborted := True\<rparr>"
  by (simp add: onmessage_def)

lemma deliver_done:
  assumes "data ev = ''[DONE]''"
  shows "deliver env (pre @ ev # post) st = (deliver env pre st)\<lparr>aborted := True\<rparr>"
proof (cases "aborted (deliver env pre st)")
  case True
  then show ?thesis by (simp add: deliver_append)
next
  case False
  then show ?thesis
    by (simp add: deliver_append onmessage_done[OF assms] deliver_aborted)
qed

lemma processLines_stopped:
  "fst (processLines env lines st) \<Longrightarrow>
   processLines env (lines @ tail) st = processLines env lines st"
  by (induction lines arbitrary: st) (auto split: prod.splits bool.splits)

lemma processLines_append:
  "\<not> fst (processLines env lines st) \<Longrightarrow>
   processLines env (lines @ tail) st = processLines env tail (snd (processLines env lines st))"
  by (induction lines arbitrary: st) (auto split: prod.splits bool.splits)

lemma processLines_done_line:
  "processLines env (''data: [DONE]'' # tail) st = (True, finishResponse st)"
  by (simp add: processLine_def startsWith_def)

text \<open>
  Claim C7.  At an event whose data is \<open>[DONE]\<close>, \<open>onmessage\<close> aborts the connection and
  does nothing else: no call of \<open>onStream\<close>, no change of the accumulated text or of the
  token count.  In a stream that holds such an event, the events after it are not
  delivered, and the text and the calls of \<open>onStream\<close> are those of the events before it.
  In the reader of the OpenRouter node, the lines after a line \<open>data: [DONE]\<close> are not
  processed, the loop ends there and no further chunk is read; that line leaves the
  streamed text as it is and sends no \<open>streaming\<close> signal.
\<close>

theorem done_terminates_stream:
  "(data ev = ''[DONE]'' \<longrightarrow>
      onmessage env ev st = st\<lparr>aborted := True\<rparr>
      \<and> deliver env (pre @ ev # post) st = (deliver env pre st)\<lparr>aborted := True\<rparr>
      \<and> aborted (deliver env (pre @ ev # post) st)
      \<and> fullText (deliver env (pre @ ev # post) st) = fullText (deliver env pre st)
      \<and> streamCalls (deliver env (pre @ ev # post) st) = streamCalls (deliver env pre st))
   \<and> fst (processLines env (lines @ ''data: [DONE]'' # rest) nst)
   \<and> processLines env (lines @ ''data: [DONE]'' # rest) nst
       = processLines env (lines @ [''data: [DONE]'']) nst
   \<and> (\<not> fst (processLines env lines nst) \<longrightarrow>
        snd (processLines env (lines @ ''data: [DONE]'' # rest) nst)
          = finishResponse (snd (processLines env lines nst))
        \<and> streamingText (snd (processLines env (lines @ ''data: [DONE]'' # rest) nst))
            = streamingText (snd (processLines env lines nst))
        \<and> outputs (snd (processLines env (lines @ ''data: [DONE]'' # rest) nst))
            = outputs (snd (processLines env lines nst)) @ [''fullResponse'', ''completed''])
   \<and> (fst (processLines env (butlast (split_lines (lineBuffer nst @ chunk)))
              (nst\<lparr>lineBuffer := last (split_lines (lineBuffer nst @ chunk))\<rparr>)) \<longrightarrow>
        readChunks env (chunk # chunks) nst = readChunks env [chunk] nst)"
proof (intro conjI impI)
  assume d: "data ev = ''[DONE]''"
  show "onmessage env ev st = st\<lparr>aborted := True\<rparr>"
    by (rule onmessage_done[OF d])
  show e: "deliver env (pre @ ev # post) st = (deliver env pre st)\<lparr>aborted := True\<rparr>"
    by (rule deliver_done[OF d])
  show "aborted (deliver env (pre @ ev # post) st)"
    by (simp add: e)
  show "fullText (deliver env (pre @ ev # post) st) = fullText (deliver env pre st)"
    by (simp add: e)
  show "streamCalls (deliver env (pre @ ev # post) st) = streamCalls (deliver env pre st)"
    by (simp add: e)
next
  show "fst (processLines env (lines @ ''data: [DONE]'' # rest) nst)"
    by (cases "fst (processLines env lines nst)")
      (simp_all add: processLines_stopped processLines_append processLines_done_line
        del: processLines.simps)
next
  show "processLines env (lines @ ''data: [DONE]'' # rest) nst
       = processLines env (lines @ [''data: [DONE]'']) nst"
    by (cases "fst (processLines env lines nst)")
      (simp_all add: processLines_stopped processLines_append processLines_done_line
        del: processLines.simps)
next
  assume n: "\<not> fst (processLines env lines nst)"
  show f: "snd (processLines env (lines @ ''data: [DONE]'' # rest) nst)
          = finishResponse (snd (processLines env lines nst))"
    using n
    by (simp add: processLines_append processLines_done_line del: processLines.simps)
  show "streamingText (snd (processLines env (lines @ ''data: [DONE]'' # rest) nst))
            = streamingText (snd (processLines env lines nst))"
    by (simp add: f finishResponse_def)
  show "outputs (snd (processLines env (lines @ ''data: [DONE]'' # rest) nst))
            = outputs (snd (processLines env lines nst)) @ [''fullResponse'', ''completed'']"
    by (simp add: f finishResponse_def)
next
  assume "fst (processLines env (butlast (split_lines (lineBuffer nst @ chunk)))
              (nst\<lparr>lineBuffer := last (split_lines (lineBuffer nst @ chunk))\<rparr>))"
  then show "readChunks env (chunk # chunks) nst = readChunks env [chunk] nst"
    by (auto simp: Let_def split: prod.splits bool.splits)
qed

lemma deliver_hello:
  "deliver sampleEnv [helloEvent] initialChatState =
     initialChatState\<lparr>completionTokenCount := 1, fullText := ''Hello'',
        streamCalls := [(''Hello'', JString ''Hello'')]\<rparr>"
  by (simp add: onmessage_def sampleEnv_def helloEvent_def helloJson_def deltaContent_def
      textOf_def initialChatState_def)

lemma processLine_hello:
  "processLine sampleEnv helloLine st =
     (False, st\<lparr>streamingText := streamingText st @ ''Hello'',
                outputs := outputs st @ [''response'', ''streaming'']\<rparr>)"
  by (simp add: processLine_def helloLine_def startsWith_def sampleEnv_def helloEvent_def
      helloJson_def guardedDeltaContent_def textOf_def)

text \<open>
  A stream of the sample event, the end marker and the sample event again: the text is
  \<open>Hello\<close>, from the first event alone, and the connection is aborted.  The same for
  the lines of the node, and for two chunks of which the first holds the end marker.
\<close>

theorem done_terminates_stream_witness:
  "data doneEvent = ''[DONE]''
   \<and> aborted (deliver sampleEnv ([helloEvent] @ doneEvent # [helloEvent]) initialChatState)
   \<and> fullText (deliver sampleEnv ([helloEvent] @ doneEvent # [helloEvent]) initialChatState)
       = ''Hello''
   \<and> streamCalls (deliver sampleEnv ([helloEvent] @ doneEvent # [helloEvent])
        initialChatState) = [(''Hello'', JString ''Hello'')]
   \<and> \<not> fst (processLines sampleEnv [helloLine] initialNode)
   \<and> streamingText (snd (processLines sampleEnv
        ([helloLine] @ ''data: [DONE]'' # [helloLine]) initialNode)) = ''Hello''
   \<and> outputs (snd (processLines sampleEnv
        ([helloLine] @ ''data: [DONE]'' # [helloLine]) initialNode))
       = [''response'', ''streaming'', ''fullResponse'', ''completed'']
   \<and> fst (processLines sampleEnv
        (butlast (split_lines (lineBuffer initialNode @ ''data: [DONE]'' @ [CHR 0x0A])))
        (initialNode\<lparr>lineBuffer :=
           last (split_lines (lineBuffer initialNode @ ''data: [DONE]'' @ [CHR 0x0A]))\<rparr>))
   \<and> streamingText (readChunks sampleEnv
        ((''data: [DONE]'' @ [CHR 0x0A]) # [helloLine @ [CHR 0x0A]]) initialNode) = []"
proof -
  note T = done_terminates_stream[where ev = doneEvent and env = sampleEnv
      and st = initialChatState and pre = "[helloEvent]" and post = "[helloEvent]"
      and lines = "[helloLine]" and rest = "[helloLine]" and nst = initialNode
      and chunk = "''data: [DONE]'' @ [CHR 0x0A]" and chunks = "[helloLine @ [CHR 0x0A]]"]
  have d: "data doneEvent = ''[DONE]''"
    by (simp add: doneEvent_def)
  have a: "aborted (deliver sampleEnv ([helloEvent] @ doneEvent # [helloEvent])
        initialChatState)
      \<and> fullText (deliver sampleEnv ([helloEvent] @ doneEvent # [helloEvent])
          initialChatState) = ''Hello''
      \<and> streamCalls (deliver sampleEnv ([helloEvent] @ doneEvent # [helloEvent])
          initialChatState) = [(''Hello'', JString ''Hello'')]"
    unfolding T[THEN conjunct1, rule_format, OF d, THEN conjunct2, THEN conjunct1]
      deliver_hello
    by simp
  have n: "\<not> fst (processLines sampleEnv [helloLine] initialNode)"
    by (simp add: processLine_hello)
  have l: "snd (processLines sampleEnv [helloLine] initialNode)
      = initialNode\<lparr>streamingText := ''Hello'', outputs := [''response'', ''streaming'']\<rparr>"
    by (simp add: processLine_hello initialNode_def)
  have b: "streamingText (snd (processLines sampleEnv
        ([helloLine] @ ''data: [DONE]'' # [helloLine]) initialNode)) = ''Hello''
      \<and> outputs (snd (processLines sampleEnv
        ([helloLine] @ ''data: [DONE]'' # [helloLine]) initialNode))
       = [''response'', ''streaming'', ''fullResponse'', ''completed'']"
    unfolding T[THEN conjunct2, THEN conjunct2, THEN conjunct2, THEN conjunct1,
        rule_format, OF n, THEN conjunct1] l
    by (simp add: finishResponse_def)
  have s: "split_lines (lineBuffer initialNode @ ''data: [DONE]'' @ [CHR 0x0A])
      = [''data: [DONE]'', []]"
    by (simp add: initialNode_def)
  have f: "fst (processLines sampleEnv
        (butlast (split_lines (lineBuffer initialNode @ ''data: [DONE]'' @ [CHR 0x0A])))
        (initialNode\<lparr>lineBuffer :=
           last (split_lines (lineBuffer initialNode @ ''data: [DONE]'' @ [CHR 0x0A]))\<rparr>))"
    unfolding s by (simp add: processLine_def startsWith_def)
  have "readChunks sampleEnv
        ((''data: [DONE]'' @ [CHR 0x0A]) # [helloLine @ [CHR 0x0A]]) initialNode
      = readChunks sampleEnv [''data: [DONE]'' @ [CHR 0x0A]] initialNode"
    using T[THEN conjunct2, THEN conjunct2, THEN conjunct2, THEN conjunct2, rule_format, OF f] .
  also have "\<dots> = finishResponse (initialNode\<lparr>lineBuffer := []\<rparr>)"
    using s by (simp add: Let_def processLine_def startsWith_def)
  finally have c: "streamingText (readChunks sampleEnv
        ((''data: [DONE]'' @ [CHR 0x0A]) # [helloLine @ [CHR 0x0A]]) initialNode) = []"
    by (simp add: finishResponse_def initialNode_def)
  show ?thesis
    using d a n b f c by blast
qed

lemma onmessage_same_view:
  "streamView a = streamView b \<Longrightarrow>
   streamView (onmessage env ev a) = streamView (onmessage env ev b)"
  by (auto simp: streamView_def onmessage_def parsingError_def
      split: option.splits sum.splits)

lemma deliver_same_view:
  "streamView a = streamView b \<Longrightarrow>
   streamView (deliver env evs a) = streamView (deliver env evs b)"
proof (induction evs arbitrary: a b)
  case Nil
  then show ?case by simp
next
  case (Cons ev evs)
  from Cons.prems have ab: "aborted a = aborted b"
    by (simp add: streamView_def)
  show ?case
  proof (cases "aborted a")
    case True
    with ab Cons.prems show ?thesis by simp
  next
    case False
    with ab show ?thesis
      using Cons.IH[OF onmessage_same_view[OF Cons.prems]] by simp
  qed
qed

lemma onmessage_malformed:
  "malformed env ev \<Longrightarrow> streamView (onmessage env ev st) = streamView st"
  by (auto simp: malformed_def streamView_def onmessage_def parsingError_def
      split: option.splits sum.splits)

text \<open>
  Claim C9.  An event whose data is not parseable JSON, or in which the read of
  \<open>choices[0].delta.content\<close> throws or finds nothing, changes neither the accumulated
  text, nor the token count, nor the abort signal, and makes no call of \<open>onStream\<close>;
  and the stream goes on as if the event were not there: text, token count, abort signal
  and calls of \<open>onStream\<close> at the end are those of the stream without it.
\<close>

theorem malformed_event_ignored:
  "malformed env ev \<longrightarrow>
     streamView (onmessage env ev st) = streamView st
     \<and> aborted (onmessage env ev st) = aborted st
     \<and> streamView (deliver env (pre @ ev # post) st) = streamView (deliver env (pre @ post) st)"
proof (intro impI conjI)
  assume m: "malformed env ev"
  show v: "streamView (onmessage env ev st) = streamView st"
    by (rule onmessage_malformed[OF m])
  then show "aborted (onmessage env ev st) = aborted st"
    by (simp add: streamView_def)
  let ?s = "deliver env pre st"
  show "streamView (deliver env (pre @ ev # post) st) = streamView (deliver env (pre @ post) st)"
  proof (cases "aborted ?s")
    case True
    then show ?thesis by (simp add: deliver_append deliver_aborted)
  next
    case False
    have "streamView (deliver env post (onmessage env ev ?s)) = streamView (deliver env post ?s)"
      by (rule deliver_same_view[OF onmessage_malformed[OF m]])
    with False show ?thesis by (simp add: deliver_append)
  qed
qed

text \<open>
  Between two sample events, an event that is no JSON and one that is the empty object
  leave the text \<open>HelloHello\<close> of the two sample events, and the stream is not aborted.
\<close>

theorem malformed_event_ignored_witness:
  "malformed sampleEnv \<lparr>data = ''<html>''\<rparr>
   \<and> malformed sampleEnv \<lparr>data = ''{}''\<rparr>
   \<and> streamView (deliver sampleEnv ([helloEvent] @ \<lparr>data = ''<html>''\<rparr> # [helloEvent])
        initialChatState)
       = (''HelloHello'', 2, False,
          [(''Hello'', JString ''Hello''), (''HelloHello'', JString ''Hello'')])
   \<and> streamView (deliver sampleEnv ([helloEvent] @ \<lparr>data = ''{}''\<rparr> # [helloEvent])
        initialChatState)
       = (''HelloHello'', 2, False,
          [(''Hello'', JString ''Hello''), (''HelloHello'', JString ''Hello'')])"
proof -
  have m1: "malformed sampleEnv \<lparr>data = ''<html>''\<rparr>"
    by (simp add: malformed_def sampleEnv_def helloEvent_def)
  have m2: "malformed sampleEnv \<lparr>data = ''{}''\<rparr>"
    by (simp add: malformed_def sampleEnv_def helloEvent_def deltaContent_def)
  have v: "streamView (deliver sampleEnv ([helloEvent] @ [helloEvent]) initialChatState)
      = (''HelloHello'', 2, False,
         [(''Hello'', JString ''Hello''), (''HelloHello'', JString ''Hello'')])"
    by (simp add: streamView_def onmessage_def sampleEnv_def helloEvent_def helloJson_def
        deltaContent_def textOf_def initialChatState_def)
  note A = malformed_event_ignored[where env = sampleEnv and ev = "\<lparr>data = ''<html>''\<rparr>"
      and st = initialChatState and pre = "[helloEvent]" and post = "[helloEvent]",
      rule_format, OF m1]
  note B = malformed_event_ignored[where env = sampleEnv and ev = "\<lparr>data = ''{}''\<rparr>"
      and st = initialChatState and pre = "[helloEvent]" and post = "[helloEvent]",
      rule_format, OF m2]
  show ?thesis
    using m1 m2 A B v by simp
qed

end
